theory Spec2Isabelle
  imports Complex_Main "HOL-Library.AList" "HOL-Library.Log_Nat"
begin

section \<open>JavaScript values and string helpers\<close>

text \<open>
  The background worker exchanges JSON with the classification providers. A JSON value is
  modelled as a datatype; tab ids are integers, as Chrome's are. \<open>JSON.parse\<close> is a
  builtin of the host and is taken as a parameter \<open>parse\<close> (\<open>None\<close> when it throws
  a SyntaxError).
\<close>

datatype json =
    JNull
  | JBool bool
  | JNum int
  | JStr string
  | JArr "json list"
  | JObj "(string \<times> json) list"

text \<open>Reading a property: \<open>undefined\<close> (\<open>None\<close>) on everything that is not an object
  holding the key. Reading a property of \<open>null\<close> throws; the callers treat that case first.\<close>

fun getProp :: "json \<Rightarrow> string \<Rightarrow> json option" where
  "getProp (JObj kvs) k = map_of kvs k"
| "getProp _ k = None"

fun isArray :: "json option \<Rightarrow> bool" where
  "isArray (Some (JArr xs)) = True"
| "isArray _ = False"

text \<open>\<open>s.indexOf(c)\<close> and \<open>s.lastIndexOf(c)\<close> for a one-character pattern: -1 when absent.\<close>

fun indexOf :: "string \<Rightarrow> char \<Rightarrow> int" where
  "indexOf [] c = -1"
| "indexOf (x # xs) c =
     (if x = c then 0 else (let i = indexOf xs c in if i < 0 then -1 else i + 1))"

definition lastIndexOf :: "string \<Rightarrow> char \<Rightarrow> int" where
  "lastIndexOf s c =
     (let i = indexOf (rev s) c in if i < 0 then -1 else int (length s) - 1 - i)"

text \<open>\<open>s.slice(a, b)\<close>, called in the source only with \<open>0 \<le> a\<close> and \<open>a < b\<close>.\<close>

definition slice :: "string \<Rightarrow> int \<Rightarrow> int \<Rightarrow> string" where
  "slice s a b = take (nat (b - a)) (drop (nat a) s)"

definition startsWith :: "string \<Rightarrow> string \<Rightarrow> bool" where
  "startsWith s p = (take (length p) s = p)"

fun includesStr :: "string \<Rightarrow> string \<Rightarrow> bool" where
  "includesStr [] p = (p = [])"
| "includesStr (x # xs) p = (startsWith (x # xs) p \<or> includesStr xs p)"

text \<open>
  \<open>ToString\<close>, as a template literal applies it to a value that \<open>JSON.parse\<close> has
  produced, throws a TypeError on an object that has a key \<open>toString\<close> of its own (the value
  there is never a function, and the inherited \<open>valueOf\<close> returns the object), and on an
  array one of whose elements throws (\<open>Array.prototype.join\<close> converts every element but
  \<open>null\<close>). On every other value it returns a string.
\<close>

fun jsToStringThrows :: "json \<Rightarrow> bool" where
  "jsToStringThrows (JObj kvs) = (map_of kvs ''toString'' \<noteq> None)"
| "jsToStringThrows (JArr xs) = list_ex jsToStringThrows xs"
| "jsToStringThrows v = False"

text \<open>A number in a template literal: its decimal digits.\<close>

fun showNat :: "nat \<Rightarrow> string" where
  "showNat n =
     (if n < 10 then [char_of (48 + n)] else showNat (n div 10) @ [char_of (48 + n mod 10)])"

declare showNat.simps [simp del]

text \<open>\<open>x || d\<close> on an optional string: an absent or empty string is falsy.\<close>

fun orElse :: "string option \<Rightarrow> string \<Rightarrow> string" where
  "orElse None d = d"
| "orElse (Some s) d = (if s = [] then d else s)"

section \<open>Classification provider adapters\<close>

text \<open>
  What one \<open>fetch\<close> to a provider can yield: the promise rejects, the status is not ok,
  \<open>res.json()\<close> rejects, or an envelope arrives. Of the envelope only the model's text is
  read: \<open>env_text\<close> is the string at the provider's path
  (\<open>choices[0].message.content\<close>, \<open>candidates[0].content.parts[0].text\<close>,
  \<open>content[0].text\<close>), \<open>env_rawText\<close> the one at
  \<open>candidates[0].content.parts[0].rawText\<close>, which only the Gemini adapter reads;
  \<open>None\<close> when the path is absent. \<open>NotOk status errText\<close> is a response whose status is
  not ok, with the body \<open>res.text()\<close> gave (\<open>""\<close> when that rejects). The messages
  carried by the failures are only logged by the adapters.
\<close>

record envelope =
  env_text :: "string option"
  env_rawText :: "string option"

datatype http_result =
    FetchRejected string
  | NotOk nat string
  | BodyNotJson string
  | Envelope envelope

record tabDatum =
  td_id :: int
  td_url :: string
  td_title :: string

text \<open>The inner \<open>try { JSON.parse(text) } catch { ... }\<close> of every adapter: the whole text
  first, then the text from the first opening brace to the last closing brace. \<open>Inl\<close> is the
  message of the error thrown.\<close>

definition parseWithRecovery ::
  "(string \<Rightarrow> json option) \<Rightarrow> string \<Rightarrow> string \<Rightarrow> string + json" where
  "parseWithRecovery parse notValid text =
     (case parse text of
        Some parsed \<Rightarrow> Inr parsed
      | None \<Rightarrow>
          (let start = indexOf text CHR ''{'';
               endIdx = lastIndexOf text CHR ''}''
           in if start \<ge> 0 \<and> endIdx > start
              then (case parse (slice text start (endIdx + 1)) of
                      Some parsed \<Rightarrow> Inr parsed
                    | None \<Rightarrow> Inl ''SyntaxError'')
              else Inl notValid))"

text \<open>
  The two sanity checks \<open>if (!Array.isArray(parsed.tabsToClose)) parsed.tabsToClose = []\<close>
  and the same for \<open>tabGroups\<close>. On \<open>null\<close> the property read throws a TypeError. On an
  array the assignments add the two named properties to the array object; every reader of the
  result reads named properties only, so that result is represented by the object of its named
  properties. On a number, string or boolean the property read gives \<open>undefined\<close> and the
  assignment is ignored in a classic script and throws a TypeError in strict code (a module
  worker); which of the two the worker is loaded as is the parameter \<open>strict\<close>.
\<close>

definition setIfNotArray :: "string \<Rightarrow> (string \<times> json) list \<Rightarrow> (string \<times> json) list" where
  "setIfNotArray k kvs = (if isArray (map_of kvs k) then kvs else AList.update k (JArr []) kvs)"

fun sanityChecks :: "bool \<Rightarrow> json \<Rightarrow> string + json" where
  "sanityChecks strict JNull = Inl ''TypeError''"
| "sanityChecks strict (JObj kvs) =
     Inr (JObj (setIfNotArray ''tabGroups'' (setIfNotArray ''tabsToClose'' kvs)))"
| "sanityChecks strict (JArr xs) =
     Inr (JObj [(''tabsToClose'', JArr []), (''tabGroups'', JArr [])])"
| "sanityChecks strict v = (if strict then Inl ''TypeError'' else Inr v)"

definition fallback :: "string \<Rightarrow> tabDatum list \<Rightarrow> json" where
  "fallback provider tabData =
     JObj [(''tabsToClose'', JArr []),
           (''tabGroups'',
              JArr [JObj [(''name'', JStr ''All Tabs''),
                          (''color'', JStr ''purple''),
                          (''tabIds'', JArr (map (\<lambda>t. JNum (td_id t)) tabData))]]),
           (''reasoning'', JStr (provider @ '' error - basic grouping applied''))]"

text \<open>The text each adapter takes out of the envelope, with its default \<open>"{}"\<close>.\<close>

definition openAIContent :: "envelope \<Rightarrow> string" where
  "openAIContent data = orElse (env_text data) ''{}''"

definition geminiText :: "envelope \<Rightarrow> string" where
  "geminiText data = orElse (env_text data) (orElse (env_rawText data) ''{}'')"

definition claudeText :: "envelope \<Rightarrow> string" where
  "claudeText data = orElse (env_text data) ''{}''"

definition openAITry ::
  "(string \<Rightarrow> json option) \<Rightarrow> bool \<Rightarrow> http_result \<Rightarrow> string + json" where
  "openAITry parse strict http =
     (case http of
        FetchRejected m \<Rightarrow> Inl m
      | NotOk status errText \<Rightarrow>
          Inl (''OpenAI API error: '' @ showNat status @ '' '' @ errText)
      | BodyNotJson m \<Rightarrow> Inl m
      | Envelope data \<Rightarrow>
          (let content = openAIContent data
           in case parseWithRecovery parse ''OpenAI response was not valid JSON'' content of
                Inl m \<Rightarrow> Inl m
              | Inr parsed \<Rightarrow> sanityChecks strict parsed))"

definition analyzeTabsWithOpenAI ::
  "(string \<Rightarrow> json option) \<Rightarrow> bool \<Rightarrow> http_result \<Rightarrow> tabDatum list \<Rightarrow> json" where
  "analyzeTabsWithOpenAI parse strict http tabData =
     (case openAITry parse strict http of
        Inr parsed \<Rightarrow> parsed
      | Inl e \<Rightarrow> fallback ''OpenAI'' tabData)"

definition geminiTry ::
  "(string \<Rightarrow> json option) \<Rightarrow> bool \<Rightarrow> http_result \<Rightarrow> string + json" where
  "geminiTry parse strict http =
     (case http of
        FetchRejected m \<Rightarrow> Inl m
      | NotOk status errText \<Rightarrow>
          Inl (''Gemini API error: '' @ showNat status @ '' '' @ errText)
      | BodyNotJson m \<Rightarrow> Inl m
      | Envelope data \<Rightarrow>
          (let text = geminiText data
           in case parseWithRecovery parse ''Gemini response was not valid JSON'' text of
                Inl m \<Rightarrow> Inl m
              | Inr parsed \<Rightarrow> sanityChecks strict parsed))"

definition analyzeTabsWithGemini ::
  "(string \<Rightarrow> json option) \<Rightarrow> bool \<Rightarrow> http_result \<Rightarrow> tabDatum list \<Rightarrow> json" where
  "analyzeTabsWithGemini parse strict http tabData =
     (case geminiTry parse strict http of
        Inr parsed \<Rightarrow> parsed
      | Inl e \<Rightarrow> fallback ''Gemini'' tabData)"

definition claudeTry ::
  "(string \<Rightarrow> json option) \<Rightarrow> bool \<Rightarrow> http_result \<Rightarrow> string + json" where
  "claudeTry parse strict http =
     (case http of
        FetchRejected m \<Rightarrow> Inl m
      | NotOk status errText \<Rightarrow>
          Inl (''Claude API error: '' @ showNat status @ '' '' @ errText)
      | BodyNotJson m \<Rightarrow> Inl m
      | Envelope data \<Rightarrow>
          (let text = claudeText data
           in case parseWithRecovery parse ''Claude response was not valid JSON'' text of
                Inl m \<Rightarrow> Inl m
              | Inr parsed \<Rightarrow> sanityChecks strict parsed))"

definition analyzeTabsWithClaude ::
  "(string \<Rightarrow> json option) \<Rightarrow> bool \<Rightarrow> http_result \<Rightarrow> tabDatum list \<Rightarrow> json" where
  "analyzeTabsWithClaude parse strict http tabData =
     (case claudeTry parse strict http of
        Inr parsed \<Rightarrow> parsed
      | Inl e \<Rightarrow> fallback ''Claude'' tabData)"


definition toLowerCase :: "string \<Rightarrow> string" where
  "toLowerCase s =
     map (\<lambda>c. let n = (of_char c :: nat) in if 65 \<le> n \<and> n \<le> 90 then char_of (n + 32) else c) s"

text \<open>The router \<open>analyzeTabs\<close>. The model name and the keys only travel in the request, whose
  outcome is \<open>http\<close>.\<close>

definition analyzeTabs ::
  "(string \<Rightarrow> json option) \<Rightarrow> bool \<Rightarrow> http_result \<Rightarrow> string option \<Rightarrow> tabDatum list \<Rightarrow> json" where
  "analyzeTabs parse strict http provider tabData =
     (let prov = toLowerCase (orElse provider ''openai'')
      in if prov = ''gemini'' then analyzeTabsWithGemini parse strict http tabData
         else if prov = ''claude'' then analyzeTabsWithClaude parse strict http tabData
         else analyzeTabsWithOpenAI parse strict http tabData)"

section \<open>The background worker: state and host\<close>

text \<open>A tab as \<open>chrome.tabs.query\<close> returns it; an absent \<open>url\<close> is the empty string (the
  source only tests it for truthiness or replaces it by \<open>""\<close>).\<close>

record tab =
  tab_id :: int
  tab_url :: string
  tab_title :: string
  tab_windowId :: int
  tab_index :: int
  tab_active :: bool
  tab_pinned :: bool

record closedTab =
  ct_url :: string
  ct_windowId :: int
  ct_index :: int
  ct_active :: bool
  ct_pinned :: bool

text \<open>The record kept under \<open>lastAction\<close> in \<open>chrome.storage.local\<close>.\<close>

record action =
  la_type :: string
  la_closedTabs :: "closedTab list"
  la_groupedTabIds :: "int list list"
  la_timestamp :: int

text \<open>The messages \<open>sendProgress\<close> sends, with the fields the popup reads.\<close>

datatype progress =
    Start
  | TabsCollected nat
  | ExtractProgress nat nat
  | AiRequest nat
  | AiResponse nat nat string
  | ClosingProgress nat nat
  | ClosingDone nat
  | GroupProgress nat nat
  | GroupingDone nat
  | Complete
  | Error string
  | UndoStart
  | UndoGroupingProgress nat nat
  | UndoGroupingDone nat
  | UndoReopenProgress nat nat
  | UndoReopenDone nat
  | UndoComplete

text \<open>The calls to the tab API that succeeded, in order: what the worker did to the browser.\<close>

datatype chrome_call =
    TabsRemove "int list"
  | TabsGroup "int list"
  | TabGroupsUpdate int
  | TabsUngroup "int list"
  | TabsCreate string "int option"
  | TabsMove int int
  | TabsPin int

text \<open>
  The worker's state: the module variables \<open>isProcessing\<close> and \<open>recentTouch\<close>, the
  \<open>lastAction\<close> slot of \<open>chrome.storage.local\<close>, the progress messages sent and the tab API
  calls that succeeded.
\<close>

record state =
  isProcessing :: bool
  lastAction :: "action option"
  recentTouch :: "int \<Rightarrow> int option"
  progress :: "progress list"
  chrome :: "chrome_call list"

text \<open>
  The host during one call of the worker: what each asynchronous call answers. An error field
  holds the message of the rejection, a \<open>Fails\<close> field says that the call rejects.
  \<open>e_create url w\<close> is the id and window of the tab created, \<open>None\<close> when
  \<open>chrome.tabs.create\<close> rejects (for instance because window \<open>w\<close> is gone).
\<close>

record env =
  e_parse :: "string \<Rightarrow> json option"
  e_strict :: bool
  e_http :: http_result
  e_now :: int
  e_syncGetError :: "string option"
  e_providerAnalyze :: "string option"
  e_providerClose :: "string option"
  e_providerAuto :: "string option"
  e_autoClose :: "bool option"
  e_autoOrganize :: bool
  e_queryError :: "string option"
  e_tabs :: "tab list"
  e_currentTab :: "int option"
  e_removeFails :: "int list \<Rightarrow> bool"
  e_group :: "int list \<Rightarrow> int option"
  e_groupUpdateFails :: "int \<Rightarrow> bool"
  e_ungroupFails :: "int list \<Rightarrow> bool"
  e_create :: "string \<Rightarrow> int option \<Rightarrow> (int \<times> int) option"
  e_moveFails :: "int \<Rightarrow> bool"
  e_pinFails :: "int \<Rightarrow> bool"
  e_localSetFails :: bool
  e_localGetFails :: bool
  e_localRemoveFails :: bool
  e_shuffle :: "string list \<Rightarrow> string list"
  e_selectedCount :: nat

record settings =
  s_importanceThreshold :: "int option"
  s_autoClose :: "bool option"

definition sendProgress :: "progress \<Rightarrow> state \<Rightarrow> state" where
  "sendProgress ev st = st\<lparr>progress := progress st @ [ev]\<rparr>"

definition setLastAction ::
  "env \<Rightarrow> string \<Rightarrow> closedTab list \<Rightarrow> int list list \<Rightarrow> state \<Rightarrow> state" where
  "setLastAction e ty closedTabs groupedTabIds st =
     (if e_localSetFails e then st
      else st\<lparr>lastAction := Some \<lparr>la_type = ty, la_closedTabs = closedTabs,
                                  la_groupedTabIds = groupedTabIds, la_timestamp = e_now e\<rparr>\<rparr>)"

definition getLastAction :: "env \<Rightarrow> state \<Rightarrow> action option" where
  "getLastAction e st = (if e_localGetFails e then None else lastAction st)"

definition clearLastAction :: "env \<Rightarrow> state \<Rightarrow> state" where
  "clearLastAction e st = (if e_localRemoveFails e then st else st\<lparr>lastAction := None\<rparr>)"

definition logCall :: "chrome_call \<Rightarrow> state \<Rightarrow> state" where
  "logCall c st = st\<lparr>chrome := chrome st @ [c]\<rparr>"

text \<open>The tab API. \<open>chrome.tabs.remove\<close> takes one tab id or an array of tab ids and
  \<open>chrome.tabs.group\<close> an array of tab ids; any other argument is refused by the API
  itself.\<close>

fun idsOf :: "json list \<Rightarrow> int list option" where
  "idsOf [] = Some []"
| "idsOf (JNum n # js) = (case idsOf js of Some ns \<Rightarrow> Some (n # ns) | None \<Rightarrow> None)"
| "idsOf (_ # js) = None"

definition removalIds :: "json \<Rightarrow> int list option" where
  "removalIds tabId = (case tabId of JNum n \<Rightarrow> Some [n] | JArr xs \<Rightarrow> idsOf xs | _ \<Rightarrow> None)"

definition chromeTabsRemove :: "env \<Rightarrow> json \<Rightarrow> state \<Rightarrow> state option" where
  "chromeTabsRemove e tabId st =
     (case removalIds tabId of
        None \<Rightarrow> None
      | Some ns \<Rightarrow> if e_removeFails e ns then None else Some (logCall (TabsRemove ns) st))"

text \<open>\<open>chrome.tabs.group\<close> followed by \<open>chrome.tabGroups.update\<close>: the group stays, without
  its label, when only the second call rejects. The result is the copy \<open>[...group.tabIds]\<close>
  when both calls succeeded.\<close>

definition chromeGroupAndLabel :: "env \<Rightarrow> json list \<Rightarrow> state \<Rightarrow> state \<times> int list option" where
  "chromeGroupAndLabel e tabIds st =
     (case idsOf tabIds of
        None \<Rightarrow> (st, None)
      | Some ids \<Rightarrow>
          (case e_group e ids of
             None \<Rightarrow> (st, None)
           | Some gid \<Rightarrow>
               (let st1 = logCall (TabsGroup ids) st
                in if e_groupUpdateFails e gid then (st1, None)
                   else (logCall (TabGroupsUpdate gid) st1, Some ids))))"

text \<open>\<open>idToTab.get(tid)\<close>: the map is filled in query order, a later tab with the same id
  replacing an earlier one; a key that is not a number finds nothing.\<close>

definition idToTabGet :: "tab list \<Rightarrow> json \<Rightarrow> tab option" where
  "idToTabGet tabs tid =
     (case tid of JNum n \<Rightarrow> find (\<lambda>t. tab_id t = n) (rev tabs) | _ \<Rightarrow> None)"

definition metaOf :: "tab \<Rightarrow> closedTab" where
  "metaOf original =
     \<lparr>ct_url = tab_url original, ct_windowId = tab_windowId original,
      ct_index = tab_index original, ct_active = tab_active original,
      ct_pinned = tab_pinned original\<rparr>"

definition tabDatumOf :: "tab \<Rightarrow> tabDatum" where
  "tabDatumOf t = \<lparr>td_id = tab_id t, td_url = tab_url t, td_title = tab_title t\<rparr>"

section \<open>The loops shared by the pipelines\<close>

text \<open>Content extraction never fails the loop, and the content only feeds the prompt: the
  loop builds \<open>tabData\<close> and reports each tab.\<close>

fun extractLoop :: "nat \<Rightarrow> nat \<Rightarrow> tab list \<Rightarrow> state \<Rightarrow> tabDatum list \<times> state" where
  "extractLoop tot i [] st = ([], st)"
| "extractLoop tot i (t # ts) st =
     (let st1 = sendProgress (ExtractProgress (i + 1) tot) st;
          (tabData, st2) = extractLoop tot (i + 1) ts st1
      in (tabDatumOf t # tabData, st2))"

text \<open>
  The closing loop. \<open>closeStep\<close> is one turn of it, on the metadata collected, the count
  \<open>closed\<close> and the state: the metadata is pushed before \<open>chrome.tabs.remove\<close> is awaited,
  and a rejected removal skips the count and the progress message. What the handler of the
  turn does is the parameter \<open>warns\<close>: in \<open>organizeTabsGeneric\<close> it is empty; in
  \<open>organizeTabsAndClose\<close> and \<open>closeLowImportance\<close> it logs a warning built with the
  template literal \<open>`Failed to close tab ${tabId}:`\<close>, which throws in its turn when the
  candidate cannot be converted to a string, and that error leaves the loop (\<open>Inl\<close>, with
  its message and the state reached). The source's counters \<open>total\<close> and \<open>closed\<close> are
  \<open>tot\<close> and \<open>nClosed\<close> here, the former names being constants of HOL.
\<close>

definition closeStep ::
  "env \<Rightarrow> bool \<Rightarrow> tab list \<Rightarrow> nat \<Rightarrow> json \<Rightarrow> closedTab list \<times> nat \<times> state
     \<Rightarrow> (string \<times> state) + (closedTab list \<times> nat \<times> state)" where
  "closeStep e warns tabs tot tabId acc =
     (case acc of
        (closedTabsMeta, nClosed, st) \<Rightarrow>
          (let meta' = (case idToTabGet tabs tabId of
                          Some original \<Rightarrow>
                            if tab_url original \<noteq> [] then closedTabsMeta @ [metaOf original]
                            else closedTabsMeta
                        | None \<Rightarrow> closedTabsMeta)
           in case chromeTabsRemove e tabId st of
                Some st' \<Rightarrow>
                  Inr (meta', nClosed + 1, sendProgress (ClosingProgress (nClosed + 1) tot) st')
              | None \<Rightarrow>
                  if warns \<and> jsToStringThrows tabId
                  then Inl (''Cannot convert object to primitive value'', st)
                  else Inr (meta', nClosed, st)))"

fun closeLoop ::
  "env \<Rightarrow> bool \<Rightarrow> tab list \<Rightarrow> nat \<Rightarrow> json list \<Rightarrow> closedTab list \<times> nat \<times> state
     \<Rightarrow> (string \<times> state) + (closedTab list \<times> nat \<times> state)" where
  "closeLoop e warns tabs tot [] acc = Inr acc"
| "closeLoop e warns tabs tot (tabId # rest) acc =
     (case closeStep e warns tabs tot tabId acc of
        Inl thrown \<Rightarrow> Inl thrown
      | Inr acc' \<Rightarrow> closeLoop e warns tabs tot rest acc')"

definition closeAll ::
  "env \<Rightarrow> bool \<Rightarrow> tab list \<Rightarrow> json list \<Rightarrow> state \<Rightarrow> (string \<times> state) + (closedTab list \<times> state)" where
  "closeAll e warns tabs tabsToClose st =
     (case closeLoop e warns tabs (length tabsToClose) tabsToClose ([], 0, st) of
        Inl thrown \<Rightarrow> Inl thrown
      | Inr (closedTabsMeta, nClosed, st') \<Rightarrow>
          Inr (closedTabsMeta, sendProgress (ClosingDone nClosed) st'))"

text \<open>
  The grouping loop. \<open>groupStep\<close> is one turn of it. A group that is \<open>null\<close> throws on
  the read of \<open>group.tabIds\<close>; a group without a non-empty \<open>tabIds\<close> array is skipped by
  \<open>continue\<close>; a rejected call throws with the group created or not. The handler of
  \<open>organizeTabsGeneric\<close> is empty. The one of \<open>organizeTabsAndClose\<close> logs a warning built
  with \<open>`Failed to create/update group ${group.name}:`\<close>: on a \<open>null\<close> group the read of
  \<open>group.name\<close> throws again, and so does the conversion of a name that has no string
  form; that error leaves the loop.
\<close>

definition nameThrows :: "json \<Rightarrow> bool" where
  "nameThrows grp = (case getProp grp ''name'' of Some v \<Rightarrow> jsToStringThrows v | None \<Rightarrow> False)"

definition groupStep ::
  "env \<Rightarrow> bool \<Rightarrow> nat \<Rightarrow> json \<Rightarrow> int list list \<times> nat \<times> state
     \<Rightarrow> (string \<times> state) + (int list list \<times> nat \<times> state)" where
  "groupStep e warns tot grp acc =
     (case acc of
        (groupedTabIds, grouped, st) \<Rightarrow>
          if grp = JNull
          then (if warns then Inl (''Cannot read properties of null (reading 'name')'', st)
                else Inr acc)
          else (case getProp grp ''tabIds'' of
                  Some (JArr tabIds) \<Rightarrow>
                    if tabIds = [] then Inr acc
                    else (case chromeGroupAndLabel e tabIds st of
                            (st', Some ids) \<Rightarrow>
                              Inr (groupedTabIds @ [ids], grouped + 1,
                                   sendProgress (GroupProgress (grouped + 1) tot) st')
                          | (st', None) \<Rightarrow>
                              if warns \<and> nameThrows grp
                              then Inl (''Cannot convert object to primitive value'', st')
                              else Inr (groupedTabIds, grouped, st'))
                | _ \<Rightarrow> Inr acc))"

fun groupLoop ::
  "env \<Rightarrow> bool \<Rightarrow> nat \<Rightarrow> json list \<Rightarrow> int list list \<times> nat \<times> state
     \<Rightarrow> (string \<times> state) + (int list list \<times> nat \<times> state)" where
  "groupLoop e warns tot [] acc = Inr acc"
| "groupLoop e warns tot (grp # rest) acc =
     (case groupStep e warns tot grp acc of
        Inl thrown \<Rightarrow> Inl thrown
      | Inr acc' \<Rightarrow> groupLoop e warns tot rest acc')"

text \<open>\<open>if (Array.isArray(analysis.tabGroups) && analysis.tabGroups.length) { ... }\<close>.\<close>

definition groupAll ::
  "env \<Rightarrow> bool \<Rightarrow> json option \<Rightarrow> state \<Rightarrow> (string \<times> state) + (int list list \<times> state)" where
  "groupAll e warns tabGroups st =
     (case tabGroups of
        Some (JArr groups) \<Rightarrow>
          if groups = [] then Inr ([], st)
          else (case groupLoop e warns (length groups) groups ([], 0, st) of
                  Inl thrown \<Rightarrow> Inl thrown
                | Inr (groupedTabIds, grouped, st') \<Rightarrow>
                    Inr (groupedTabIds, sendProgress (GroupingDone grouped) st'))
      | _ \<Rightarrow> Inr ([], st))"

definition arrayLength :: "json option \<Rightarrow> nat" where
  "arrayLength v = (case v of Some (JArr xs) \<Rightarrow> length xs | _ \<Rightarrow> 0)"

definition reasoningOf :: "json \<Rightarrow> string" where
  "reasoningOf analysis =
     (case getProp analysis ''reasoning'' of Some (JStr r) \<Rightarrow> take 300 r | _ \<Rightarrow> [])"

definition arrayOf :: "json option \<Rightarrow> json list option" where
  "arrayOf v = (case v of Some (JArr xs) \<Rightarrow> Some xs | _ \<Rightarrow> None)"

text \<open>The message \<open>ai_response\<close> of the organize pipelines.\<close>

definition aiResponse :: "json \<Rightarrow> progress" where
  "aiResponse analysis =
     AiResponse (arrayLength (getProp analysis ''tabsToClose''))
       (arrayLength (getProp analysis ''tabGroups'')) (reasoningOf analysis)"

text \<open>The closing step \<open>if (autoClose && Array.isArray(analysis.tabsToClose)) { ... }\<close>; the
  close-only pipeline has no \<open>autoClose\<close> in its test.\<close>

definition closeIfAsked ::
  "env \<Rightarrow> bool \<Rightarrow> tab list \<Rightarrow> bool \<Rightarrow> json list option \<Rightarrow> state
     \<Rightarrow> (string \<times> state) + (closedTab list \<times> state)" where
  "closeIfAsked e warns tabs autoClose tabsToClose st =
     (case tabsToClose of
        Some ids \<Rightarrow> if autoClose then closeAll e warns tabs ids st else Inr ([], st)
      | None \<Rightarrow> Inr ([], st))"

definition actionType :: "bool \<Rightarrow> int list list \<Rightarrow> string" where
  "actionType autoClose groupedTabIds =
     (if autoClose then (if groupedTabIds \<noteq> [] then ''organize'' else ''close'')
      else (if groupedTabIds \<noteq> [] then ''group'' else ''none''))"


section \<open>The pipelines\<close>

text \<open>
  Each pipeline is its \<open>try\<close> block, which yields \<open>Inl\<close> with the message and the state
  reached when something is thrown to the outer handler, wrapped by the guard on
  \<open>isProcessing\<close>, the \<open>catch\<close> that reports the error and the \<open>finally\<close> that resets the
  flag. A call that finds the flag set returns at once.

  What is thrown is an \<open>Error\<close> object with a message (a rejection of the tab or storage
  API, or a TypeError); the handler reports \<open>String(error?.message || error)\<close>, which
  is the message unless the message is empty, and then the string form of the error object.
\<close>

definition errorText :: "string \<Rightarrow> string" where
  "errorText m = (if m = [] then ''Error'' else m)"

text \<open>The \<open>autoClose\<close> of a run: the request's setting when it is a boolean, else the stored
  one, else \<open>false\<close>.\<close>

definition autoCloseOf :: "env \<Rightarrow> settings \<Rightarrow> bool" where
  "autoCloseOf e settings =
     (case s_autoClose settings of
        Some b \<Rightarrow> b
      | None \<Rightarrow> (case e_autoClose e of Some b \<Rightarrow> b | None \<Rightarrow> False))"

definition organizeTry :: "env \<Rightarrow> settings \<Rightarrow> state \<Rightarrow> (string \<times> state) + state" where
  "organizeTry e settings st =
     (case e_syncGetError e of
        Some m \<Rightarrow> Inl (m, st)
      | None \<Rightarrow>
          (let provider = toLowerCase (orElse (e_providerAnalyze e) ''openai'');
               autoClose = autoCloseOf e settings
           in case e_queryError e of
                Some m \<Rightarrow> Inl (m, st)
              | None \<Rightarrow>
                  (let tabs = e_tabs e;
                       st1 = sendProgress (TabsCollected (length tabs)) st;
                       (tabData, st2) = extractLoop (length tabs) 0 tabs st1;
                       st3 = sendProgress (AiRequest (length tabData)) st2;
                       analysis = analyzeTabs (e_parse e) (e_strict e) (e_http e) (Some provider) tabData;
                       st4 = sendProgress (aiResponse analysis) st3
                   in case closeIfAsked e True tabs autoClose
                             (arrayOf (getProp analysis ''tabsToClose'')) st4 of
                        Inl thrown \<Rightarrow> Inl thrown
                      | Inr (closedTabsMeta, st5) \<Rightarrow>
                          (case groupAll e True (getProp analysis ''tabGroups'') st5 of
                             Inl thrown \<Rightarrow> Inl thrown
                           | Inr (groupedTabIds, st6) \<Rightarrow>
                               Inr (sendProgress Complete
                                      (setLastAction e (actionType autoClose groupedTabIds)
                                         closedTabsMeta groupedTabIds st6))))))"

definition organizeTabsAndClose :: "env \<Rightarrow> settings \<Rightarrow> state \<Rightarrow> state" where
  "organizeTabsAndClose e settings st =
     (if isProcessing st then st
      else (let st0 = sendProgress Start (st\<lparr>isProcessing := True\<rparr>);
                st1 = (case organizeTry e settings st0 of
                         Inr s \<Rightarrow> s
                       | Inl (m, s) \<Rightarrow> sendProgress (Error (errorText m)) s)
            in st1\<lparr>isProcessing := False\<rparr>))"

definition closeLowTry :: "env \<Rightarrow> settings \<Rightarrow> state \<Rightarrow> (string \<times> state) + state" where
  "closeLowTry e settings st =
     (case e_syncGetError e of
        Some m \<Rightarrow> Inl (m, st)
      | None \<Rightarrow>
          (let provider = toLowerCase (orElse (e_providerClose e) ''openai'')
           in case e_queryError e of
                Some m \<Rightarrow> Inl (m, st)
              | None \<Rightarrow>
                  (let tabs = e_tabs e;
                       st1 = sendProgress (TabsCollected (length tabs)) st;
                       (tabData, st2) = extractLoop (length tabs) 0 tabs st1;
                       st3 = sendProgress (AiRequest (length tabData)) st2;
                       analysis = analyzeTabs (e_parse e) (e_strict e) (e_http e) (Some provider) tabData;
                       st4 = sendProgress
                               (AiResponse (arrayLength (getProp analysis ''tabsToClose'')) 0
                                  (reasoningOf analysis)) st3
                   in case closeIfAsked e True tabs True
                             (arrayOf (getProp analysis ''tabsToClose'')) st4 of
                        Inl thrown \<Rightarrow> Inl thrown
                      | Inr (closedTabsMeta, st5) \<Rightarrow>
                          Inr (sendProgress Complete
                                 (setLastAction e ''close'' closedTabsMeta [] st5)))))"

definition closeLowImportance :: "env \<Rightarrow> settings \<Rightarrow> state \<Rightarrow> state" where
  "closeLowImportance e settings st =
     (if isProcessing st then st
      else (let st0 = sendProgress Start (st\<lparr>isProcessing := True\<rparr>);
                st1 = (case closeLowTry e settings st0 of
                         Inr s \<Rightarrow> s
                       | Inl (m, s) \<Rightarrow> sendProgress (Error (errorText m)) s)
            in st1\<lparr>isProcessing := False\<rparr>))"

text \<open>The protection of \<open>organizeTabsGeneric\<close>: the callback of
  \<open>analysis.tabsToClose.filter\<close>, in the order of its tests.\<close>

definition protectActiveHas :: "tab list \<Rightarrow> json \<Rightarrow> bool" where
  "protectActiveHas tabs tid =
     (case tid of JNum n \<Rightarrow> n \<in> set (map tab_id (filter tab_active tabs)) | _ \<Rightarrow> False)"

definition recentTouchGet :: "(int \<Rightarrow> int option) \<Rightarrow> json \<Rightarrow> int option" where
  "recentTouchGet touch tid = (case tid of JNum n \<Rightarrow> touch n | _ \<Rightarrow> None)"

definition protectedUrl :: "string \<Rightarrow> bool" where
  "protectedUrl url =
     (startsWith url ''chrome://'' \<or> startsWith url ''chrome-extension://''
        \<or> url = ''about:blank'' \<or> includesStr url ''newtab'')"

definition keepCandidate :: "tab list \<Rightarrow> (int \<Rightarrow> int option) \<Rightarrow> int \<Rightarrow> json \<Rightarrow> bool" where
  "keepCandidate tabs touch nowTs tid =
     (case idToTabGet tabs tid of
        None \<Rightarrow> False
      | Some original \<Rightarrow>
          (let url = tab_url original
           in if protectActiveHas tabs tid then False
              else if protectedUrl url then False
              else (case recentTouchGet touch tid of
                      Some touched \<Rightarrow> \<not> (touched \<noteq> 0 \<and> nowTs - touched < 30000)
                    | None \<Rightarrow> True)))"

text \<open>\<open>if (Array.isArray(analysis.tabsToClose)) analysis.tabsToClose =
  analysis.tabsToClose.filter(...)\<close>.\<close>

definition filterTabsToClose ::
  "tab list \<Rightarrow> (int \<Rightarrow> int option) \<Rightarrow> int \<Rightarrow> json list option \<Rightarrow> json list option" where
  "filterTabsToClose tabs touch nowTs tabsToClose =
     (case tabsToClose of
        Some ids \<Rightarrow> Some (filter (keepCandidate tabs touch nowTs) ids)
      | None \<Rightarrow> None)"

definition genericTry :: "env \<Rightarrow> string option \<Rightarrow> bool \<Rightarrow> state \<Rightarrow> (string \<times> state) + state" where
  "genericTry e provider autoClose st =
     (case e_queryError e of
        Some m \<Rightarrow> Inl (m, st)
      | None \<Rightarrow>
          (let tabs = e_tabs e;
               st1 = sendProgress (TabsCollected (length tabs)) st;
               (tabData, st2) = extractLoop (length tabs) 0 tabs st1;
               st3 = sendProgress (AiRequest (length tabData)) st2;
               analysis = analyzeTabs (e_parse e) (e_strict e) (e_http e) provider tabData;
               st4 = sendProgress (aiResponse analysis) st3;
               nowTs = e_now e;
               filtered = filterTabsToClose tabs (recentTouch st4) nowTs
                            (arrayOf (getProp analysis ''tabsToClose''))
           in case closeIfAsked e False tabs autoClose filtered st4 of
                Inl thrown \<Rightarrow> Inl thrown
              | Inr (closedTabsMeta, st5) \<Rightarrow>
                  (case groupAll e False (getProp analysis ''tabGroups'') st5 of
                     Inl thrown \<Rightarrow> Inl thrown
                   | Inr (groupedTabIds, st6) \<Rightarrow>
                       Inr (sendProgress Complete
                              (setLastAction e (actionType autoClose groupedTabIds)
                                 closedTabsMeta groupedTabIds st6)))))"

definition organizeTabsGeneric :: "env \<Rightarrow> string option \<Rightarrow> bool \<Rightarrow> state \<Rightarrow> state" where
  "organizeTabsGeneric e provider autoClose st =
     (if isProcessing st then st
      else (let st0 = sendProgress Start (st\<lparr>isProcessing := True\<rparr>);
                st1 = (case genericTry e provider autoClose st0 of
                         Inr s \<Rightarrow> s
                       | Inl (m, s) \<Rightarrow> sendProgress (Error (errorText m)) s)
            in st1\<lparr>isProcessing := False\<rparr>))"

text \<open>The automatic trigger, once its debounce timer has fired: it never asks for closing.\<close>

definition autoOrganizeIfEnabled :: "env \<Rightarrow> state \<Rightarrow> state" where
  "autoOrganizeIfEnabled e st =
     (case e_syncGetError e of
        Some m \<Rightarrow> st
      | None \<Rightarrow>
          if \<not> e_autoOrganize e then st
          else organizeTabsGeneric e
                 (Some (toLowerCase (orElse (e_providerAuto e) ''gemini''))) False st)"

text \<open>The listeners that fill \<open>recentTouch\<close>; the second one also arms the timer of the
  automatic trigger.\<close>

definition onCreated :: "env \<Rightarrow> int \<Rightarrow> state \<Rightarrow> state" where
  "onCreated e tabId st = st\<lparr>recentTouch := (recentTouch st)(tabId \<mapsto> e_now e)\<rparr>"

definition onUpdatedComplete :: "env \<Rightarrow> int \<Rightarrow> state \<Rightarrow> state" where
  "onUpdatedComplete e tabId st = st\<lparr>recentTouch := (recentTouch st)(tabId \<mapsto> e_now e)\<rparr>"

section \<open>Undo\<close>

fun ungroupLoop :: "env \<Rightarrow> nat \<Rightarrow> int list list \<Rightarrow> nat \<Rightarrow> state \<Rightarrow> nat \<times> state" where
  "ungroupLoop e tot [] processed st = (processed, st)"
| "ungroupLoop e tot (tabIds # rest) processed st =
     (if e_ungroupFails e tabIds then ungroupLoop e tot rest (processed + 1) st
      else ungroupLoop e tot rest (processed + 1)
             (sendProgress (UndoGroupingProgress (processed + 1) tot)
                (logCall (TabsUngroup tabIds) st)))"

text \<open>Reopening one tab: in its window first, with the move and the pin each tolerated to
  fail, and in the current window when the first creation rejects.\<close>

fun reopenLoop :: "env \<Rightarrow> nat \<Rightarrow> closedTab list \<Rightarrow> nat \<Rightarrow> state \<Rightarrow> nat \<times> state" where
  "reopenLoop e tot [] reopened st = (reopened, st)"
| "reopenLoop e tot (meta # rest) reopened st =
     (case e_create e (ct_url meta) (Some (ct_windowId meta)) of
        Some (createdId, createdWindow) \<Rightarrow>
          (let st1 = logCall (TabsCreate (ct_url meta) (Some (ct_windowId meta))) st;
               st2 = (if ct_index meta \<ge> 0 \<and> \<not> e_moveFails e createdId
                      then logCall (TabsMove createdId (ct_index meta)) st1 else st1);
               st3 = (if ct_pinned meta \<and> \<not> e_pinFails e createdId
                      then logCall (TabsPin createdId) st2 else st2)
           in reopenLoop e tot rest (reopened + 1)
                (sendProgress (UndoReopenProgress (reopened + 1) tot) st3))
      | None \<Rightarrow>
          (case e_create e (ct_url meta) None of
             Some created \<Rightarrow>
               reopenLoop e tot rest (reopened + 1)
                 (sendProgress (UndoReopenProgress (reopened + 1) tot)
                    (logCall (TabsCreate (ct_url meta) None) st))
           | None \<Rightarrow> reopenLoop e tot rest reopened st))"

text \<open>The \<open>try\<close> block of \<open>undoLastAction\<close>. Every call that can reject in it sits in a handler
  of its own, so nothing reaches the outer \<open>catch\<close>.\<close>

definition undoTry :: "env \<Rightarrow> state \<Rightarrow> state" where
  "undoTry e st =
     (case getLastAction e st of
        None \<Rightarrow> (sendProgress (Error ''Nothing to undo.'') st)\<lparr>isProcessing := False\<rparr>
      | Some action \<Rightarrow>
          if la_type action = ''none''
          then (sendProgress (Error ''Nothing to undo.'') st)\<lparr>isProcessing := False\<rparr>
          else (let st1 = (if la_groupedTabIds action \<noteq> []
                           then (let (processed, s) =
                                       ungroupLoop e (length (la_groupedTabIds action))
                                         (la_groupedTabIds action) 0 st
                                 in sendProgress (UndoGroupingDone processed) s)
                           else st);
                    st2 = (if la_closedTabs action \<noteq> []
                           then (let (reopened, s) =
                                       reopenLoop e (length (la_closedTabs action))
                                         (la_closedTabs action) 0 st1
                                 in sendProgress (UndoReopenDone reopened) s)
                           else st1);
                    st3 = clearLastAction e st2
                in sendProgress UndoComplete st3))"

definition undoLastAction :: "env \<Rightarrow> state \<Rightarrow> state" where
  "undoLastAction e st =
     (if isProcessing st then st
      else (let st0 = sendProgress UndoStart (st\<lparr>isProcessing := True\<rparr>);
                st1 = undoTry e st0
            in st1\<lparr>isProcessing := False\<rparr>))"

section \<open>Debug helpers\<close>

definition debugUrls :: "string list" where
  "debugUrls =
     [''https://www.wikipedia.org'', ''https://www.github.com'', ''https://stackoverflow.com'',
      ''https://www.reddit.com'', ''https://www.youtube.com'',
      ''https://www.google.com/search?q=javascript'', ''https://www.amazon.com'',
      ''https://twitter.com'', ''https://www.linkedin.com'', ''https://news.ycombinator.com'']"

fun createLoop :: "env \<Rightarrow> string list \<Rightarrow> state \<Rightarrow> state" where
  "createLoop e [] st = st"
| "createLoop e (url # rest) st =
     (case e_create e url None of
        Some created \<Rightarrow> createLoop e rest (logCall (TabsCreate url None) st)
      | None \<Rightarrow> createLoop e rest st)"

text \<open>The random order and the random count (18 to 25) come from the host.\<close>

definition createDebugTabs :: "env \<Rightarrow> state \<Rightarrow> state" where
  "createDebugTabs e st = createLoop e (take (e_selectedCount e) (e_shuffle e debugUrls)) st"

definition debugCloseAllTabs :: "env \<Rightarrow> state \<Rightarrow> state" where
  "debugCloseAllTabs e st =
     (case e_queryError e of
        Some m \<Rightarrow> st
      | None \<Rightarrow>
          (let tabs = e_tabs e;
               currentId = e_currentTab e;
               toClose = map tab_id (filter (\<lambda>t. Some (tab_id t) \<noteq> currentId) tabs);
               closedTabsMeta =
                 map metaOf (filter (\<lambda>t. Some (tab_id t) \<noteq> currentId \<and> tab_url t \<noteq> []) tabs)
           in if toClose \<noteq> []
              then (if e_removeFails e toClose then st
                    else setLastAction e ''close'' closedTabsMeta []
                           (logCall (TabsRemove toClose) st))
              else setLastAction e ''close'' closedTabsMeta [] st))"

section \<open>The message listener\<close>

datatype request =
    ReqOrganizeTabsAndClose settings
  | ReqDebugCreateTabs
  | ReqDebugCloseAllTabs
  | ReqCloseLowImportance settings
  | ReqUndoLastAction
  | ReqGetTabCount
  | ReqGetStoredSettings
  | ReqOther string

datatype response =
    RespSuccess
  | RespCount nat
  | RespStoredSettings
  | RespUnknownAction

text \<open>The listener awaits the function and then answers; \<open>None\<close> is no answer at all (the
  query or the storage read rejected inside the listener).\<close>

definition onMessage :: "env \<Rightarrow> request \<Rightarrow> state \<Rightarrow> state \<times> response option" where
  "onMessage e request st =
     (case request of
        ReqOrganizeTabsAndClose settings \<Rightarrow> (organizeTabsAndClose e settings st, Some RespSuccess)
      | ReqDebugCreateTabs \<Rightarrow> (createDebugTabs e st, Some RespSuccess)
      | ReqDebugCloseAllTabs \<Rightarrow> (debugCloseAllTabs e st, Some RespSuccess)
      | ReqCloseLowImportance settings \<Rightarrow> (closeLowImportance e settings st, Some RespSuccess)
      | ReqUndoLastAction \<Rightarrow> (undoLastAction e st, Some RespSuccess)
      | ReqGetTabCount \<Rightarrow>
          (st, case e_queryError e of Some m \<Rightarrow> None | None \<Rightarrow> Some (RespCount (length (e_tabs e))))
      | ReqGetStoredSettings \<Rightarrow>
          (st, case e_syncGetError e of Some m \<Rightarrow> None | None \<Rightarrow> Some RespStoredSettings)
      | ReqOther a \<Rightarrow> (st, Some RespUnknownAction))"


section \<open>The popup: progress percentage\<close>

subsection \<open>Numbers\<close>

text \<open>
  The numbers of the popup are IEEE 754 doubles. A double is modelled by the rational it
  denotes, and every arithmetic operation yields the double nearest to its exact result, a tie
  going to the even significand: \<open>d64\<close> rounds a rational to 53 significant bits. The
  exponent is not bounded in the model; the magnitudes that occur lie between 2 to the power
  -32 and 200, where doubles are neither subnormal nor infinite. The counts the messages carry are
  lengths of arrays, which doubles hold exactly.
\<close>

text \<open>For \<open>x > 0\<close>, the exponent \<open>e\<close> with \<open>2 powi e \<le> x < 2 powi (e + 1)\<close>.\<close>

definition ilog2 :: "rat \<Rightarrow> int" where
  "ilog2 x =
     (let (a, b) = quotient_of x;
          d = bitlen a - bitlen b
      in if 2 powi d \<le> x then d else d - 1)"

definition roundHalfEven :: "rat \<Rightarrow> int" where
  "roundHalfEven m =
     (let f = \<lfloor>m\<rfloor>;
          r = m - of_int f
      in if r < 1 / 2 then f
         else if 1 / 2 < r then f + 1
         else if even f then f else f + 1)"

definition d64 :: "rat \<Rightarrow> rat" where
  "d64 x =
     (if x = 0 then 0
      else (let u = 2 powi (ilog2 \<bar>x\<bar> - 52)
            in sgn x * of_int (roundHalfEven (\<bar>x\<bar> / u)) * u))"

definition fadd :: "rat \<Rightarrow> rat \<Rightarrow> rat" where
  "fadd x y = d64 (x + y)"

definition fmul :: "rat \<Rightarrow> rat \<Rightarrow> rat" where
  "fmul x y = d64 (x * y)"

definition fdiv :: "rat \<Rightarrow> rat \<Rightarrow> rat" where
  "fdiv x y = d64 (x / y)"

text \<open>\<open>Math.round\<close>: the nearest integer, a half rounding up; the result is exact.\<close>

definition mathRound :: "rat \<Rightarrow> int" where
  "mathRound x = \<lfloor>x + 1 / 2\<rfloor>"

subsection \<open>The progress bar\<close>

text \<open>
  The popup keeps the object \<open>prog\<close> and the progress bar; \<open>percent\<close> is the value the
  bar shows, which \<open>setPercent\<close> overwrites. The weights are the doubles nearest to the
  decimal literals of \<open>PCT_WEIGHTS\<close>.
\<close>

record popup =
  totalTabs :: nat
  extracted :: nat
  aiStarted :: bool
  aiDone :: bool
  closingTotal :: nat
  closingDone :: nat
  groupingTotal :: nat
  groupingDone :: nat
  running :: bool
  percent :: int

definition PCT_WEIGHTS_extract :: rat where
  "PCT_WEIGHTS_extract = d64 (50 / 100)"

definition PCT_WEIGHTS_ai :: rat where
  "PCT_WEIGHTS_ai = d64 (10 / 100)"

definition PCT_WEIGHTS_closing :: rat where
  "PCT_WEIGHTS_closing = d64 (20 / 100)"

definition PCT_WEIGHTS_grouping :: rat where
  "PCT_WEIGHTS_grouping = d64 (20 / 100)"

definition setPercent :: "rat \<Rightarrow> popup \<Rightarrow> popup" where
  "setPercent p pp =
     (let clamped = max 0 (min 100 (mathRound p))
      in pp\<lparr>percent := clamped\<rparr>)"

definition computePercent :: "popup \<Rightarrow> rat" where
  "computePercent pp =
     (let extractPct = (if totalTabs pp > 0
                        then fdiv (of_nat (extracted pp)) (of_nat (totalTabs pp)) else 0);
          aiPct = (if aiDone pp then 1 else if aiStarted pp then d64 (5 / 10) else 0);
          closingPct = (if closingTotal pp > 0
                        then fdiv (of_nat (closingDone pp)) (of_nat (closingTotal pp))
                        else (if closingTotal pp = 0 then 1 else 0));
          groupingPct = (if groupingTotal pp > 0
                         then fdiv (of_nat (groupingDone pp)) (of_nat (groupingTotal pp))
                         else (if groupingTotal pp = 0 then 1 else 0));
          tot = fadd (fadd (fadd (fmul extractPct PCT_WEIGHTS_extract)
                                 (fmul aiPct PCT_WEIGHTS_ai))
                           (fmul closingPct PCT_WEIGHTS_closing))
                     (fmul groupingPct PCT_WEIGHTS_grouping)
      in fmul tot 100)"

definition updatePercentAndStage :: "popup \<Rightarrow> popup" where
  "updatePercentAndStage pp = setPercent (computePercent pp) pp"

definition setRunning :: "bool \<Rightarrow> popup \<Rightarrow> popup" where
  "setRunning isRunning pp =
     (let pp1 = pp\<lparr>running := isRunning\<rparr>
      in if isRunning then setPercent 0 pp1 else pp1)"

text \<open>The click handlers of the organize and close buttons reset \<open>prog\<close>; the one of the undo
  button does not.\<close>

definition clickOrganize :: "popup \<Rightarrow> popup" where
  "clickOrganize pp =
     (setRunning True pp)\<lparr>totalTabs := 0, extracted := 0, aiStarted := False, aiDone := False,
        closingTotal := 0, closingDone := 0, groupingTotal := 0, groupingDone := 0\<rparr>"

definition clickUndo :: "popup \<Rightarrow> popup" where
  "clickUndo pp = setRunning True pp"

text \<open>\<open>a || b\<close> on numbers: zero is falsy.\<close>

definition orNat :: "nat \<Rightarrow> nat \<Rightarrow> nat" where
  "orNat a b = (if a = 0 then b else a)"

text \<open>The listener for progress messages, one equation for each \<open>case\<close> of its switch. In the
  undo cases the sum of 20 or 50 and a rounded value is a sum of small integers, which is
  exact.\<close>

fun onProgress :: "progress \<Rightarrow> popup \<Rightarrow> popup" where
  "onProgress Start pp = updatePercentAndStage pp"
| "onProgress (TabsCollected n) pp = updatePercentAndStage (pp\<lparr>totalTabs := n\<rparr>)"
| "onProgress (ExtractProgress completed n) pp =
     updatePercentAndStage (pp\<lparr>extracted := orNat completed (extracted pp)\<rparr>)"
| "onProgress (AiRequest n) pp = updatePercentAndStage (pp\<lparr>aiStarted := True\<rparr>)"
| "onProgress (AiResponse tabsToClose groups reasoning) pp =
     (updatePercentAndStage (pp\<lparr>aiDone := True\<rparr>))
       \<lparr>closingTotal := tabsToClose, groupingTotal := groups\<rparr>"
| "onProgress (ClosingProgress n tot) pp =
     updatePercentAndStage
       (pp\<lparr>closingTotal := max (closingTotal pp) tot, closingDone := orNat n (closingDone pp)\<rparr>)"
| "onProgress (ClosingDone n) pp = updatePercentAndStage pp"
| "onProgress (GroupProgress n tot) pp =
     updatePercentAndStage
       (pp\<lparr>groupingTotal := max (groupingTotal pp) tot, groupingDone := orNat n (groupingDone pp)\<rparr>)"
| "onProgress (GroupingDone n) pp = updatePercentAndStage pp"
| "onProgress Complete pp = setRunning False (setPercent 100 (updatePercentAndStage pp))"
| "onProgress (Error m) pp = setRunning False pp"
| "onProgress UndoStart pp = setPercent 5 pp"
| "onProgress (UndoGroupingProgress processed tot) pp =
     (if tot > 0
      then setPercent (20 + of_int (mathRound (fmul (fdiv (of_nat processed) (of_nat tot)) 20))) pp
      else pp)"
| "onProgress (UndoGroupingDone n) pp = setPercent 40 pp"
| "onProgress (UndoReopenProgress reopened tot) pp =
     (if tot > 0
      then setPercent (50 + of_int (mathRound (fmul (fdiv (of_nat reopened) (of_nat tot)) 45))) pp
      else pp)"
| "onProgress (UndoReopenDone n) pp = pp"
| "onProgress UndoComplete pp = setRunning False (setPercent 100 (updatePercentAndStage pp))"

text \<open>The popup after a sequence of progress messages, delivered in order.\<close>

definition deliver :: "progress list \<Rightarrow> popup \<Rightarrow> popup" where
  "deliver evs pp = foldl (\<lambda>q ev. onProgress ev q) pp evs"

text \<open>The popup as it is when the page has loaded.\<close>

definition popupLoaded :: popup where
  "popupLoaded =
     \<lparr>totalTabs = 0, extracted = 0, aiStarted = False, aiDone = False, closingTotal = 0,
      closingDone = 0, groupingTotal = 0, groupingDone = 0, running = False, percent = 0\<rparr>"


section \<open>Sample inputs\<close>

text \<open>Three tabs in one window, the third one active; a host on which every call succeeds;
  \<open>JSON.parse\<close> on the texts used below (it throws on the others used here).\<close>

definition tabA :: tab where
  "tabA = \<lparr>tab_id = 1, tab_url = ''https://a.example'', tab_title = ''A'', tab_windowId = 1,
            tab_index = 0, tab_active = False, tab_pinned = False\<rparr>"

definition tabB :: tab where
  "tabB = \<lparr>tab_id = 2, tab_url = ''https://b.example'', tab_title = ''B'', tab_windowId = 1,
            tab_index = 1, tab_active = False, tab_pinned = False\<rparr>"

definition tabC :: tab where
  "tabC = \<lparr>tab_id = 3, tab_url = ''https://c.example'', tab_title = ''C'', tab_windowId = 1,
            tab_index = 2, tab_active = True, tab_pinned = False\<rparr>"

definition replyJson :: string where
  \<open>replyJson = ''{"tabsToClose":[2,3],"tabGroups":[{"name":"Research","color":"blue","tabIds":[1]}]}''\<close>

definition replyValue :: json where
  "replyValue =
     JObj [(''tabsToClose'', JArr [JNum 2, JNum 3]),
           (''tabGroups'',
              JArr [JObj [(''name'', JStr ''Research''), (''color'', JStr ''blue''),
                          (''tabIds'', JArr [JNum 1])]])]"

definition parseSample :: "string \<Rightarrow> json option" where
  "parseSample s =
     (if s = replyJson then Some replyValue
      else if s = ''{}'' then Some (JObj [])
      else if s = ''[1,2]'' then Some (JArr [JNum 1, JNum 2])
      else if s = ''null'' then Some JNull
      else if s = ''5'' then Some (JNum 5)
      else None)"

definition hostOk :: env where
  "hostOk =
     \<lparr>e_parse = parseSample, e_strict = False,
      e_http = Envelope \<lparr>env_text = Some replyJson, env_rawText = None\<rparr>,
      e_now = 1000000, e_syncGetError = None, e_providerAnalyze = None,
      e_providerClose = None, e_providerAuto = None, e_autoClose = None,
      e_autoOrganize = True, e_queryError = None, e_tabs = [tabA, tabB, tabC],
      e_currentTab = Some 3, e_removeFails = (\<lambda>ids. False), e_group = (\<lambda>ids. Some 7),
      e_groupUpdateFails = (\<lambda>gid. False), e_ungroupFails = (\<lambda>ids. False),
      e_create = (\<lambda>url w. Some (100, case w of Some x \<Rightarrow> x | None \<Rightarrow> 1)),
      e_moveFails = (\<lambda>i. False), e_pinFails = (\<lambda>i. False), e_localSetFails = False,
      e_localGetFails = False, e_localRemoveFails = False, e_shuffle = (\<lambda>urls. urls),
      e_selectedCount = 18\<rparr>"

definition idle :: state where
  "idle = \<lparr>isProcessing = False, lastAction = None, recentTouch = Map.empty, progress = [],
            chrome = []\<rparr>"

definition busy :: state where
  "busy = \<lparr>isProcessing = True, lastAction = None, recentTouch = Map.empty,
            progress = [Start, TabsCollected 3, ExtractProgress 1 3], chrome = []\<rparr>"

definition noSettings :: settings where
  "noSettings = \<lparr>s_importanceThreshold = None, s_autoClose = None\<rparr>"

definition closeSettings :: settings where
  "closeSettings = \<lparr>s_importanceThreshold = Some 5, s_autoClose = Some True\<rparr>"


text \<open>A state whose journal holds one closed tab, one whose record has the type
  \<open>none\<close>, and a host whose tab query rejects.\<close>

definition recorded :: state where
  "recorded =
     \<lparr>isProcessing = False,
      lastAction = Some \<lparr>la_type = ''close'',
                          la_closedTabs = [\<lparr>ct_url = ''https://a.example'', ct_windowId = 1,
                                            ct_index = 2, ct_active = False, ct_pinned = False\<rparr>],
                          la_groupedTabIds = [], la_timestamp = 999000\<rparr>,
      recentTouch = Map.empty, progress = [], chrome = []\<rparr>"

definition recordedNone :: state where
  "recordedNone =
     \<lparr>isProcessing = False,
      lastAction = Some \<lparr>la_type = ''none'', la_closedTabs = [], la_groupedTabIds = [],
                          la_timestamp = 999000\<rparr>,
      recentTouch = Map.empty, progress = [], chrome = []\<rparr>"

definition hostDown :: env where
  "hostDown = hostOk\<lparr>e_queryError := Some ''No current window''\<rparr>"



definition wrappedText :: string where
  "wrappedText = ''Sure! '' @ replyJson @ '' Hope that helps!''"

definition wrappedReply :: http_result where
  "wrappedReply = Envelope \<lparr>env_text = Some wrappedText, env_rawText = None\<rparr>"




text \<open>A journal that holds one group and ten closed tabs, and a host that cannot reopen the
  first three of them.\<close>

definition closedPage :: closedTab where
  "closedPage = \<lparr>ct_url = ''https://a.example'', ct_windowId = 1, ct_index = 2,
                  ct_active = False, ct_pinned = False\<rparr>"

definition lostPage :: closedTab where
  "lostPage = \<lparr>ct_url = ''https://gone.example'', ct_windowId = 1, ct_index = 0,
                ct_active = False, ct_pinned = False\<rparr>"

definition recordedTen :: state where
  "recordedTen =
     \<lparr>isProcessing = False,
      lastAction = Some \<lparr>la_type = ''organize'',
                          la_closedTabs = replicate 3 lostPage @ replicate 7 closedPage,
                          la_groupedTabIds = [[1, 2]], la_timestamp = 999000\<rparr>,
      recentTouch = Map.empty, progress = [], chrome = []\<rparr>"

definition hostLosing :: env where
  "hostLosing =
     hostOk\<lparr>e_create := (\<lambda>url w. if url = ''https://gone.example'' then None else Some (100, 1))\<rparr>"

section \<open>Properties of the specification, stated over the model\<close>

text \<open>The value recovered from a text: what \<open>JSON.parse\<close> gives on the text or, when it
  throws there and the text has an opening brace before a later closing brace, on the text
  from the first opening to the last closing brace; \<open>None\<close> when nothing parses.\<close>

definition recovered :: "(string \<Rightarrow> json option) \<Rightarrow> string \<Rightarrow> json option" where
  "recovered parse text =
     (case parse text of
        Some v \<Rightarrow> Some v
      | None \<Rightarrow>
          if 0 \<le> indexOf text CHR ''{'' \<and> indexOf text CHR ''{'' < lastIndexOf text CHR ''}''
          then parse (slice text (indexOf text CHR ''{'') (lastIndexOf text CHR ''}'' + 1))
          else None)"


text \<open>The messages a run has sent, and the tab API calls it has made: those in the state it
  left that were not in the state it found.\<close>

definition jobMessages :: "state \<Rightarrow> state \<Rightarrow> progress list" where
  "jobMessages st st' = drop (length (progress st)) (progress st')"

definition jobCalls :: "state \<Rightarrow> state \<Rightarrow> chrome_call list" where
  "jobCalls st st' = drop (length (chrome st)) (chrome st')"

text \<open>A list of tab API calls in which a group is labelled, one that only removes tabs, and
  one that only creates and labels groups.\<close>

fun isLabel :: "chrome_call \<Rightarrow> bool" where
  "isLabel (TabGroupsUpdate gid) = True"
| "isLabel c = False"

fun isRemoval :: "chrome_call \<Rightarrow> bool" where
  "isRemoval (TabsRemove ids) = True"
| "isRemoval c = False"

fun isGrouping :: "chrome_call \<Rightarrow> bool" where
  "isGrouping (TabsGroup ids) = True"
| "isGrouping (TabGroupsUpdate gid) = True"
| "isGrouping c = False"

definition groupLabelled :: "chrome_call list \<Rightarrow> bool" where
  "groupLabelled cs = list_ex isLabel cs"

definition onlyRemovals :: "chrome_call list \<Rightarrow> bool" where
  "onlyRemovals cs = list_all isRemoval cs"

definition onlyGroups :: "chrome_call list \<Rightarrow> bool" where
  "onlyGroups cs = list_all isGrouping cs"

text \<open>The messages of a job up to and including the provider's answer, and those after it.\<close>

fun upToAnswer :: "progress list \<Rightarrow> progress list" where
  "upToAnswer [] = []"
| "upToAnswer (AiResponse c g r # evs) = [AiResponse c g r]"
| "upToAnswer (ev # evs) = ev # upToAnswer evs"

fun afterAnswer :: "progress list \<Rightarrow> progress list" where
  "afterAnswer [] = []"
| "afterAnswer (AiResponse c g r # evs) = evs"
| "afterAnswer (ev # evs) = afterAnswer evs"

text \<open>The percentage each message of \<open>evs\<close> reports: the value of the bar when the
  listener has handled it.\<close>

fun bars :: "progress list \<Rightarrow> popup \<Rightarrow> int list" where
  "bars [] pp = []"
| "bars (ev # evs) pp = percent (onProgress ev pp) # bars evs (onProgress ev pp)"

text \<open>The first messages of an organize or close-only job over \<open>n\<close> tabs, and the popup in
  the extraction phase of such a job: \<open>k\<close> of \<open>n\<close> tabs extracted, no answer yet.\<close>

definition jobPrefix :: "nat \<Rightarrow> progress \<Rightarrow> progress list" where
  "jobPrefix n answer =
     Start # TabsCollected n # map (\<lambda>k. ExtractProgress (Suc k) n) [0..<n] @ [AiRequest n, answer]"

definition extracting :: "bool \<Rightarrow> nat \<Rightarrow> nat \<Rightarrow> bool \<Rightarrow> int \<Rightarrow> popup" where
  "extracting run n k asked shown =
     \<lparr>totalTabs = n, extracted = k, aiStarted = asked, aiDone = False, closingTotal = 0,
      closingDone = 0, groupingTotal = 0, groupingDone = 0, running = run, percent = shown\<rparr>"

text \<open>The value \<open>setPercent(computePercent())\<close> writes to the bar of a popup.\<close>

definition barOf :: "popup \<Rightarrow> int" where
  "barOf pp = max 0 (min 100 (mathRound (computePercent pp)))"

text \<open>The weighted sum of \<open>computePercent\<close> as a function of the four stage fractions.\<close>

definition weigh :: "rat \<Rightarrow> rat \<Rightarrow> rat \<Rightarrow> rat \<Rightarrow> rat" where
  "weigh extractPct aiPct closingPct groupingPct =
     fmul (fadd (fadd (fadd (fmul extractPct PCT_WEIGHTS_extract) (fmul aiPct PCT_WEIGHTS_ai))
                      (fmul closingPct PCT_WEIGHTS_closing))
                (fmul groupingPct PCT_WEIGHTS_grouping)) 100"

text \<open>The messages a closing or grouping loop sends while its count goes from \<open>k\<close> to
  \<open>k + m\<close>.\<close>

fun closingEvents :: "nat \<Rightarrow> nat \<Rightarrow> nat \<Rightarrow> progress list" where
  "closingEvents tot k 0 = []"
| "closingEvents tot k (Suc m) = ClosingProgress (Suc k) tot # closingEvents tot (Suc k) m"

fun groupEvents :: "nat \<Rightarrow> nat \<Rightarrow> nat \<Rightarrow> progress list" where
  "groupEvents tot k 0 = []"
| "groupEvents tot k (Suc m) = GroupProgress (Suc k) tot # groupEvents tot (Suc k) m"

text \<open>
  The messages after the answer \<open>AiResponse c g r\<close> keep to the totals announced and count
  upwards: no closing or grouping message carries a total above \<open>c\<close> or \<open>g\<close> or a count
  below the last one (\<open>cd\<close>, \<open>gd\<close>), and \<open>complete\<close> or \<open>error\<close> comes last.
\<close>

fun risingTail :: "nat \<Rightarrow> nat \<Rightarrow> nat \<Rightarrow> nat \<Rightarrow> progress list \<Rightarrow> bool" where
  "risingTail c g cd gd [] = True"
| "risingTail c g cd gd (ClosingProgress j t # evs) = (t \<le> c \<and> cd \<le> j \<and> risingTail c g j gd evs)"
| "risingTail c g cd gd (ClosingDone k # evs) = risingTail c g cd gd evs"
| "risingTail c g cd gd (GroupProgress j t # evs) = (t \<le> g \<and> gd \<le> j \<and> risingTail c g cd j evs)"
| "risingTail c g cd gd (GroupingDone k # evs) = risingTail c g cd gd evs"
| "risingTail c g cd gd (Complete # evs) = (evs = [])"
| "risingTail c g cd gd (Error m # evs) = (evs = [])"
| "risingTail c g cd gd (ev # evs) = False"

text \<open>
  The messages of an undo after \<open>undo_start\<close> count upwards within their totals \<open>tg\<close>
  and \<open>tr\<close>, ungrouping before reopening. The phase is 0 at the start, 1 while ungrouping,
  2 when ungrouping is done and 3 while reopening; \<open>k\<close> is the last count of the phase.
\<close>

fun risingUndo :: "nat \<Rightarrow> nat \<Rightarrow> nat \<Rightarrow> nat \<Rightarrow> progress list \<Rightarrow> bool" where
  "risingUndo tg tr phase k [] = True"
| "risingUndo tg tr phase k (UndoGroupingProgress j t # evs) =
     (phase \<le> 1 \<and> t = tg \<and> 0 < t \<and> k \<le> j \<and> j \<le> t \<and> risingUndo tg tr 1 j evs)"
| "risingUndo tg tr phase k (UndoGroupingDone n # evs) =
     (phase \<le> 1 \<and> risingUndo tg tr 2 0 evs)"
| "risingUndo tg tr phase k (UndoReopenProgress j t # evs) =
     ((phase = 0 \<or> 2 \<le> phase) \<and> t = tr \<and> 0 < t \<and> k \<le> j \<and> j \<le> t \<and> risingUndo tg tr 3 j evs)"
| "risingUndo tg tr phase k (UndoReopenDone n # evs) = risingUndo tg tr phase k evs"
| "risingUndo tg tr phase k (UndoComplete # evs) = (evs = [])"
| "risingUndo tg tr phase k (Error m # evs) = (evs = [])"
| "risingUndo tg tr phase k (ev # evs) = False"

text \<open>The percentages the popup shows for \<open>j\<close> of \<open>t\<close> groups ungrouped and for \<open>j\<close> of
  \<open>t\<close> tabs reopened.\<close>

definition ungroupBar :: "nat \<Rightarrow> nat \<Rightarrow> int" where
  "ungroupBar t j = 20 + mathRound (fmul (fdiv (of_nat j) (of_nat t)) 20)"

definition reopenBar :: "nat \<Rightarrow> nat \<Rightarrow> int" where
  "reopenBar t j = 50 + mathRound (fmul (fdiv (of_nat j) (of_nat t)) 45)"

section \<open>Provider adapters: fallback and recovery\<close>

subsection \<open>The string helpers find the first and the last occurrence\<close>

lemma indexOf_range: "- 1 \<le> indexOf s c \<and> indexOf s c < int (length s)"
  by (induction s) (auto simp: Let_def)

lemma indexOf_absent: "indexOf s c < 0 \<longleftrightarrow> c \<notin> set s"
proof (induction s)
  case Nil
  then show ?case by simp
next
  case (Cons x xs)
  from indexOf_range [of xs c] have "- 1 \<le> indexOf xs c" by simp
  with Cons show ?case
    by (auto simp: Let_def)
qed

lemma indexOf_first:
  "0 \<le> indexOf s c \<Longrightarrow>
     s ! nat (indexOf s c) = c \<and> c \<notin> set (take (nat (indexOf s c)) s)"
proof (induction s)
  case Nil
  then show ?case by simp
next
  case (Cons x xs)
  show ?case
  proof (cases "x = c")
    case True
    then show ?thesis by simp
  next
    case False
    with Cons.prems have p: "0 \<le> indexOf xs c" and
      i: "indexOf (x # xs) c = indexOf xs c + 1"
      by (auto simp: Let_def split: if_splits)
    from p have n: "nat (indexOf xs c + 1) = Suc (nat (indexOf xs c))" by simp
    from Cons.IH [OF p] False show ?thesis
      unfolding i n by simp
  qed
qed

lemma lastIndexOf_last:
  assumes "0 \<le> lastIndexOf s c"
  shows "nat (lastIndexOf s c) < length s \<and> s ! nat (lastIndexOf s c) = c \<and>
         c \<notin> set (drop (Suc (nat (lastIndexOf s c))) s)"
proof -
  define i where "i = indexOf (rev s) c"
  from assms have i0: "0 \<le> i" and l: "lastIndexOf s c = int (length s) - 1 - i"
    by (auto simp: lastIndexOf_def i_def Let_def split: if_splits)
  from indexOf_range [of "rev s" c] have il: "i < int (length s)"
    by (simp add: i_def)
  from indexOf_first [of "rev s" c] i0
  have f: "rev s ! nat i = c" "c \<notin> set (take (nat i) (rev s))"
    by (simp_all add: i_def)
  from i0 il have k: "nat (lastIndexOf s c) = length s - 1 - nat i" "nat i < length s"
    by (simp_all add: l nat_diff_distrib')
  from f(1) k have "s ! nat (lastIndexOf s c) = c"
    by (simp add: rev_nth)
  moreover have "drop (Suc (nat (lastIndexOf s c))) s = rev (take (nat i) (rev s))"
    using k by (simp add: take_rev Suc_diff_Suc)
  with f(2) have "c \<notin> set (drop (Suc (nat (lastIndexOf s c))) s)"
    by simp
  ultimately show ?thesis using k by simp
qed

subsection \<open>Fallback\<close>








lemma array_recovered: "recovered parseSample ''[1,2]'' = Some (JArr [JNum 1, JNum 2])"
  by (simp add: recovered_def parseSample_def replyJson_def)




subsection \<open>Recovery of JSON wrapped in text\<close>

text \<open>
  C9. For each adapter: when \<open>JSON.parse\<close> throws on the model's text and the text has an
  opening brace before a later closing brace, the text from the first opening brace to the last
  closing brace is parsed instead; when that parse succeeds (a JSON text that begins with a
  brace denotes an object), the adapter returns the parsed object after its two sanity checks
  and not the fallback.
\<close>

theorem brace_substring_is_parsed:
  assumes "parse text = None"
    and "indexOf text CHR ''{'' \<ge> 0"
    and "lastIndexOf text CHR ''}'' > indexOf text CHR ''{''"
    and "parse (slice text (indexOf text CHR ''{'') (lastIndexOf text CHR ''}'' + 1)) = Some (JObj kvs)"
  shows "(openAIContent data = text \<longrightarrow>
            analyzeTabsWithOpenAI parse strict (Envelope data) tabData =
              JObj (setIfNotArray ''tabGroups'' (setIfNotArray ''tabsToClose'' kvs))) \<and>
         (geminiText data = text \<longrightarrow>
            analyzeTabsWithGemini parse strict (Envelope data) tabData =
              JObj (setIfNotArray ''tabGroups'' (setIfNotArray ''tabsToClose'' kvs))) \<and>
         (claudeText data = text \<longrightarrow>
            analyzeTabsWithClaude parse strict (Envelope data) tabData =
              JObj (setIfNotArray ''tabGroups'' (setIfNotArray ''tabsToClose'' kvs)))"
proof -
  have rec: "parseWithRecovery parse notValid text = Inr (JObj kvs)" for notValid
    using assms by (simp add: parseWithRecovery_def)
  show ?thesis
    by (simp add: rec analyzeTabsWithOpenAI_def openAITry_def analyzeTabsWithGemini_def
        geminiTry_def analyzeTabsWithClaude_def claudeTry_def)
qed

lemma wrapped_first: "indexOf wrappedText CHR ''{'' = 6"
  by (simp add: wrappedText_def replyJson_def)

lemma wrapped_last: "lastIndexOf wrappedText CHR ''}'' = 88"
  by (simp add: wrappedText_def replyJson_def lastIndexOf_def)

lemma wrapped_slice: "slice wrappedText 6 89 = replyJson"
  by (simp add: wrappedText_def replyJson_def slice_def)

lemma wrapped_parse: "parseSample wrappedText = None"
  by (simp add: wrappedText_def replyJson_def parseSample_def)

lemma wrapped_nonempty: "wrappedText \<noteq> []"
  by (simp add: wrappedText_def)

theorem brace_substring_is_parsed_witness:
  "parseSample wrappedText = None \<and>
   indexOf wrappedText CHR ''{'' = 6 \<and> lastIndexOf wrappedText CHR ''}'' = 88 \<and>
   parseSample (slice wrappedText 6 89) = Some replyValue \<and>
   analyzeTabsWithOpenAI parseSample False wrappedReply [] = replyValue \<and>
   analyzeTabsWithGemini parseSample False wrappedReply [] = replyValue \<and>
   analyzeTabsWithClaude parseSample False wrappedReply [] = replyValue"
proof -
  have i: "indexOf wrappedText CHR ''{'' \<ge> 0"
    by (simp add: wrapped_first)
  have l: "lastIndexOf wrappedText CHR ''}'' > indexOf wrappedText CHR ''{''"
    by (simp add: wrapped_first wrapped_last)
  have s: "parseSample (slice wrappedText (indexOf wrappedText CHR ''{'')
             (lastIndexOf wrappedText CHR ''}'' + 1)) =
           Some (JObj [(''tabsToClose'', JArr [JNum 2, JNum 3]),
             (''tabGroups'',
                JArr [JObj [(''name'', JStr ''Research''), (''color'', JStr ''blue''),
                            (''tabIds'', JArr [JNum 1])]])])"
    by (simp add: wrapped_first wrapped_last wrapped_slice parseSample_def replyValue_def)
  note th = brace_substring_is_parsed [OF wrapped_parse i l s,
      of "\<lparr>env_text = Some wrappedText, env_rawText = None\<rparr>" False "[]"]
  have sl: "parseSample (slice wrappedText 6 89) = Some replyValue"
    by (simp add: wrapped_slice parseSample_def)
  from th show ?thesis
    by (simp add: wrapped_first wrapped_last wrapped_parse sl wrapped_nonempty
        openAIContent_def geminiText_def claudeText_def wrappedReply_def replyValue_def
        setIfNotArray_def)
qed

section \<open>The job controller: lock, undo and rejected requests\<close>

subsection \<open>What the loops leave alone\<close>

lemma sendProgress_fields [simp]:
  "isProcessing (sendProgress ev st) = isProcessing st"
  "lastAction (sendProgress ev st) = lastAction st"
  "recentTouch (sendProgress ev st) = recentTouch st"
  "chrome (sendProgress ev st) = chrome st"
  "progress (sendProgress ev st) = progress st @ [ev]"
  by (simp_all add: sendProgress_def)

lemma logCall_fields [simp]:
  "isProcessing (logCall c st) = isProcessing st"
  "lastAction (logCall c st) = lastAction st"
  "recentTouch (logCall c st) = recentTouch st"
  "chrome (logCall c st) = chrome st @ [c]"
  "progress (logCall c st) = progress st"
  by (simp_all add: logCall_def)

lemma ungroupLoop_keeps:
  "ungroupLoop e tot gs k st = (k', st') \<Longrightarrow>
     isProcessing st' = isProcessing st \<and> lastAction st' = lastAction st"
  by (induction e tot gs k st rule: ungroupLoop.induct) (auto split: if_splits)

lemma reopenLoop_keeps:
  "reopenLoop e tot ms k st = (k', st') \<Longrightarrow>
     isProcessing st' = isProcessing st \<and> lastAction st' = lastAction st"
  by (induction e tot ms k st rule: reopenLoop.induct)
     (auto simp: Let_def split: if_splits option.splits prod.splits)

lemma undo_nothing:
  assumes "\<not> isProcessing st"
    and "lastAction st = None \<or> (\<exists>a. lastAction st = Some a \<and> la_type a = ''none'')"
  shows "undoLastAction e st =
           st\<lparr>progress := progress st @ [UndoStart, Error ''Nothing to undo.'']\<rparr>"
  using assms
  by (auto simp: undoLastAction_def undoTry_def getLastAction_def sendProgress_def Let_def)

lemma undo_done:
  assumes "\<not> isProcessing st" and "lastAction st = Some a" and "la_type a \<noteq> ''none''"
    and "\<not> e_localGetFails e" and "\<not> e_localRemoveFails e"
  shows "last (progress (undoLastAction e st)) = UndoComplete \<and>
         lastAction (undoLastAction e st) = None \<and>
         \<not> isProcessing (undoLastAction e st)"
  using assms
  by (auto simp: undoLastAction_def undoTry_def getLastAction_def clearLastAction_def Let_def
      split: prod.splits dest: ungroupLoop_keeps reopenLoop_keeps)


lemma organizeTry_ends:
  "organizeTry e settings st = Inr s \<Longrightarrow> last (progress s) = Complete"
  by (auto simp: organizeTry_def Let_def split: option.splits prod.splits sum.splits)

lemma closeLowTry_ends:
  "closeLowTry e settings st = Inr s \<Longrightarrow> last (progress s) = Complete"
  by (auto simp: closeLowTry_def Let_def split: option.splits prod.splits sum.splits)

lemma genericTry_ends:
  "genericTry e provider autoClose st = Inr s \<Longrightarrow> last (progress s) = Complete"
  by (auto simp: genericTry_def Let_def split: option.splits prod.splits sum.splits)

lemma undoTry_ends:
  "last (progress (undoTry e st)) = UndoComplete \<or>
   last (progress (undoTry e st)) = Error ''Nothing to undo.''"
  by (auto simp: undoTry_def Let_def split: option.splits prod.splits)

text \<open>
  C8. A run of any pipeline that took the lock (the flag was clear when it was called) ends
  with the flag clear, whether the run completed or an error was thrown inside it: the
  organize, close-only and automatic pipelines end on the message \<open>complete\<close> or on an
  \<open>error\<close> message, undo on \<open>undo_complete\<close> or on its early return "Nothing to undo.".
\<close>

theorem lock_released_on_every_exit:
  assumes "\<not> isProcessing st"
  shows "\<not> isProcessing (organizeTabsAndClose e settings st) \<and>
         (last (progress (organizeTabsAndClose e settings st)) = Complete \<or>
          (\<exists>m. last (progress (organizeTabsAndClose e settings st)) = Error m)) \<and>
         \<not> isProcessing (closeLowImportance e settings st) \<and>
         (last (progress (closeLowImportance e settings st)) = Complete \<or>
          (\<exists>m. last (progress (closeLowImportance e settings st)) = Error m)) \<and>
         \<not> isProcessing (organizeTabsGeneric e provider autoClose st) \<and>
         (last (progress (organizeTabsGeneric e provider autoClose st)) = Complete \<or>
          (\<exists>m. last (progress (organizeTabsGeneric e provider autoClose st)) = Error m)) \<and>
         \<not> isProcessing (autoOrganizeIfEnabled e st) \<and>
         \<not> isProcessing (undoLastAction e st) \<and>
         (last (progress (undoLastAction e st)) = UndoComplete \<or>
          last (progress (undoLastAction e st)) = Error ''Nothing to undo.'')"
proof -
  have o: "\<not> isProcessing (organizeTabsAndClose e settings st) \<and>
         (last (progress (organizeTabsAndClose e settings st)) = Complete \<or>
          (\<exists>m. last (progress (organizeTabsAndClose e settings st)) = Error m))"
    using assms
    by (auto simp: organizeTabsAndClose_def Let_def split: sum.splits dest: organizeTry_ends)
  have c: "\<not> isProcessing (closeLowImportance e settings st) \<and>
         (last (progress (closeLowImportance e settings st)) = Complete \<or>
          (\<exists>m. last (progress (closeLowImportance e settings st)) = Error m))"
    using assms
    by (auto simp: closeLowImportance_def Let_def split: sum.splits dest: closeLowTry_ends)
  have g: "\<not> isProcessing (organizeTabsGeneric e p a st) \<and>
         (last (progress (organizeTabsGeneric e p a st)) = Complete \<or>
          (\<exists>m. last (progress (organizeTabsGeneric e p a st)) = Error m))" for p a
    using assms
    by (auto simp: organizeTabsGeneric_def Let_def split: sum.splits dest: genericTry_ends)
  have a: "\<not> isProcessing (autoOrganizeIfEnabled e st)"
    using assms g by (simp add: autoOrganizeIfEnabled_def split: option.splits)
  have u: "\<not> isProcessing (undoLastAction e st) \<and>
         (last (progress (undoLastAction e st)) = UndoComplete \<or>
          last (progress (undoLastAction e st)) = Error ''Nothing to undo.'')"
    using assms undoTry_ends [of e "sendProgress UndoStart (st\<lparr>isProcessing := True\<rparr>)"]
    by (simp add: undoLastAction_def Let_def)
  from o c g a u show ?thesis by blast
qed


lemma idle_free: "\<not> isProcessing idle"
  by (simp add: idle_def)

lemma recorded_free: "\<not> isProcessing recorded"
  by (simp add: recorded_def)

lemma down_organize:
  "organizeTabsAndClose hostDown noSettings idle =
     idle\<lparr>progress := [Start, Error ''No current window'']\<rparr>"
  by (simp add: organizeTabsAndClose_def organizeTry_def hostDown_def hostOk_def idle_def
      sendProgress_def errorText_def Let_def)

lemma ok_undo_progress:
  "progress (undoLastAction hostOk recorded) =
     [UndoStart, UndoReopenProgress 1 1, UndoReopenDone 1, UndoComplete]"
  by (simp add: undoLastAction_def undoTry_def getLastAction_def clearLastAction_def
      hostOk_def recorded_def sendProgress_def logCall_def Let_def)

theorem lock_released_on_every_exit_witness:
  "\<not> isProcessing idle \<and>
   \<not> isProcessing (organizeTabsAndClose hostDown noSettings idle) \<and>
   last (progress (organizeTabsAndClose hostDown noSettings idle)) = Error ''No current window'' \<and>
   \<not> isProcessing recorded \<and>
   \<not> isProcessing (undoLastAction hostOk recorded) \<and>
   last (progress (undoLastAction hostOk recorded)) = UndoComplete"
  using lock_released_on_every_exit [of idle hostDown noSettings None False]
    lock_released_on_every_exit [of recorded hostOk noSettings None False]
  by (simp add: idle_free recorded_free down_organize ok_undo_progress)

text \<open>
  C10. Undo rejects when the journal holds no record and also when the record it holds has
  the type \<open>none\<close>: in both cases the run sends \<open>undo_start\<close> and then the error
  "Nothing to undo.", and the state it leaves differs from the one it found only by these two
  messages; the journal in particular keeps its record.
\<close>

theorem undo_rejects_none_record:
  assumes "\<not> isProcessing st"
  shows "(lastAction st = None \<longrightarrow>
            undoLastAction e st =
              st\<lparr>progress := progress st @ [UndoStart, Error ''Nothing to undo.'']\<rparr>) \<and>
         (\<forall>a. lastAction st = Some a \<and> la_type a = ''none'' \<longrightarrow>
            undoLastAction e st =
              st\<lparr>progress := progress st @ [UndoStart, Error ''Nothing to undo.'']\<rparr> \<and>
            lastAction (undoLastAction e st) = Some a)"
  using assms undo_nothing [of st e] by auto

theorem undo_rejects_none_record_witness:
  "\<not> isProcessing recordedNone \<and>
   (\<exists>a. lastAction recordedNone = Some a \<and> la_type a = ''none'') \<and>
   undoLastAction hostOk recordedNone =
     recordedNone\<lparr>progress := [UndoStart, Error ''Nothing to undo.'']\<rparr> \<and>
   lastAction (undoLastAction hostOk recordedNone) = lastAction recordedNone \<and>
   \<not> isProcessing idle \<and> lastAction idle = None \<and>
   undoLastAction hostOk idle = idle\<lparr>progress := [UndoStart, Error ''Nothing to undo.'']\<rparr>"
  using undo_rejects_none_record [of recordedNone hostOk]
    undo_rejects_none_record [of idle hostOk]
  by (simp add: recordedNone_def idle_def)

text \<open>
  C7 (as amended). Undo called with an empty journal sets the flag and sends \<open>undo_start\<close>,
  then fails with the error "Nothing to undo." and clears the flag: the state it leaves
  differs from the one it found only by these two messages, so the flag is clear again and the
  journal and the browser are untouched. After an undo that ran to \<open>undo_complete\<close> (the
  journal held a record of a type other than \<open>none\<close>, and the storage read and removal
  did not reject) the journal is empty, so that an undo called right after it, on any host,
  fails in the same way.
\<close>

theorem undo_without_record_fails:
  assumes "\<not> isProcessing st"
  shows "(lastAction st = None \<longrightarrow>
            undoLastAction e st =
              st\<lparr>progress := progress st @ [UndoStart, Error ''Nothing to undo.'']\<rparr>) \<and>
         (\<forall>a. lastAction st = Some a \<and> la_type a \<noteq> ''none'' \<and>
               \<not> e_localGetFails e \<and> \<not> e_localRemoveFails e \<longrightarrow>
            last (progress (undoLastAction e st)) = UndoComplete \<and>
            lastAction (undoLastAction e st) = None \<and>
            undoLastAction e' (undoLastAction e st) =
              (undoLastAction e st)
                \<lparr>progress := progress (undoLastAction e st)
                               @ [UndoStart, Error ''Nothing to undo.'']\<rparr>)"
proof (intro conjI allI impI)
  assume "lastAction st = None"
  with assms show "undoLastAction e st =
      st\<lparr>progress := progress st @ [UndoStart, Error ''Nothing to undo.'']\<rparr>"
    by (simp add: undo_nothing)
next
  fix a
  assume h: "lastAction st = Some a \<and> la_type a \<noteq> ''none'' \<and>
             \<not> e_localGetFails e \<and> \<not> e_localRemoveFails e"
  with assms have d: "last (progress (undoLastAction e st)) = UndoComplete \<and>
      lastAction (undoLastAction e st) = None \<and> \<not> isProcessing (undoLastAction e st)"
    by (simp add: undo_done)
  then show "last (progress (undoLastAction e st)) = UndoComplete"
    and "lastAction (undoLastAction e st) = None"
    by simp_all
  from d show "undoLastAction e' (undoLastAction e st) =
      (undoLastAction e st)
        \<lparr>progress := progress (undoLastAction e st) @ [UndoStart, Error ''Nothing to undo.'']\<rparr>"
    by (simp add: undo_nothing)
qed

lemma ok_undo_result:
  "undoLastAction hostOk recorded =
     \<lparr>isProcessing = False, lastAction = None, recentTouch = Map.empty,
      progress = [UndoStart, UndoReopenProgress 1 1, UndoReopenDone 1, UndoComplete],
      chrome = [TabsCreate ''https://a.example'' (Some 1), TabsMove 100 2]\<rparr>"
  by (simp add: undoLastAction_def undoTry_def getLastAction_def clearLastAction_def
      hostOk_def recorded_def sendProgress_def logCall_def Let_def)

theorem undo_without_record_fails_witness:
  "\<not> isProcessing idle \<and> lastAction idle = None \<and>
   undoLastAction hostOk idle = idle\<lparr>progress := [UndoStart, Error ''Nothing to undo.'']\<rparr> \<and>
   \<not> isProcessing recorded \<and> (\<exists>a. lastAction recorded = Some a \<and> la_type a \<noteq> ''none'') \<and>
   \<not> e_localGetFails hostOk \<and> \<not> e_localRemoveFails hostOk \<and>
   last (progress (undoLastAction hostOk recorded)) = UndoComplete \<and>
   lastAction (undoLastAction hostOk recorded) = None \<and>
   progress (undoLastAction hostDown (undoLastAction hostOk recorded)) =
     [UndoStart, UndoReopenProgress 1 1, UndoReopenDone 1, UndoComplete, UndoStart,
      Error ''Nothing to undo.'']"
  using undo_without_record_fails [of idle hostOk hostDown]
    undo_without_record_fails [of recorded hostOk hostDown]
  by (simp add: idle_def ok_undo_result) (simp add: recorded_def hostOk_def)

text \<open>The claim as stated fails: the failure does not come before any change of state. With
  an empty journal the run takes the lock and announces the undo first; the journal is read,
  and the error sent, by the \<open>try\<close> block, which runs with the flag set and \<open>undo_start\<close>
  already sent.\<close>

theorem undo_takes_lock_before_failing:
  "\<not> isProcessing idle \<and> lastAction idle = None \<and>
   undoLastAction hostOk idle =
     (undoTry hostOk (sendProgress UndoStart (idle\<lparr>isProcessing := True\<rparr>)))
       \<lparr>isProcessing := False\<rparr> \<and>
   isProcessing (sendProgress UndoStart (idle\<lparr>isProcessing := True\<rparr>)) \<and>
   progress (sendProgress UndoStart (idle\<lparr>isProcessing := True\<rparr>)) = [UndoStart] \<and>
   progress (undoLastAction hostOk idle) = [UndoStart, Error ''Nothing to undo.'']"
  by (simp add: undoLastAction_def undoTry_def getLastAction_def hostOk_def idle_def
      sendProgress_def Let_def)

text \<open>
  C2 (as amended). A request to organize or to close that arrives while a run is in progress
  returns at once and leaves the whole state as it was: the flag, the journal, the messages
  sent and the browser. The listener then answers the caller \<open>{success: true}\<close>, the answer
  it also gives to a request it has run: no conflict is reported.
\<close>

theorem busy_request_changes_nothing:
  assumes "isProcessing st"
  shows "onMessage e (ReqOrganizeTabsAndClose settings) st = (st, Some RespSuccess) \<and>
         onMessage e (ReqCloseLowImportance settings) st = (st, Some RespSuccess)"
  using assms by (simp add: onMessage_def organizeTabsAndClose_def closeLowImportance_def)

theorem busy_request_changes_nothing_witness:
  "isProcessing busy \<and>
   onMessage hostOk (ReqOrganizeTabsAndClose closeSettings) busy = (busy, Some RespSuccess) \<and>
   onMessage hostOk (ReqCloseLowImportance closeSettings) busy = (busy, Some RespSuccess)"
  using busy_request_changes_nothing [of busy hostOk closeSettings]
  by (simp add: busy_def)

text \<open>The claim as stated fails: the caller of a rejected request is told \<open>success\<close>, exactly
  as the caller of an accepted one, and no error message is sent.\<close>

theorem busy_request_reports_success:
  "isProcessing busy \<and>
   snd (onMessage hostOk (ReqOrganizeTabsAndClose closeSettings) busy) = Some RespSuccess \<and>
   snd (onMessage hostOk (ReqCloseLowImportance closeSettings) busy) = Some RespSuccess \<and>
   progress (fst (onMessage hostOk (ReqOrganizeTabsAndClose closeSettings) busy)) = progress busy \<and>
   \<not> isProcessing idle \<and>
   snd (onMessage hostOk (ReqOrganizeTabsAndClose closeSettings) idle) = Some RespSuccess"
  by (simp add: onMessage_def organizeTabsAndClose_def closeLowImportance_def busy_def idle_def)

section \<open>The journal record and the removals\<close>

subsection \<open>One turn of each loop\<close>

lemma chromeTabsRemove_Some:
  "chromeTabsRemove e tabId st = Some st' \<Longrightarrow>
     \<exists>ns. removalIds tabId = Some ns \<and> st' = logCall (TabsRemove ns) st"
  by (auto simp: chromeTabsRemove_def split: option.splits if_splits)

lemma closeStep_Inr:
  assumes "closeStep e w tabs tot tabId (meta, k, st) = Inr (meta', k', st')"
  shows "(k' = k \<and> st' = st) \<or>
         (k' = Suc k \<and>
          (\<exists>ns. removalIds tabId = Some ns \<and>
                st' = sendProgress (ClosingProgress (Suc k) tot) (logCall (TabsRemove ns) st)))"
proof (cases "chromeTabsRemove e tabId st")
  case None
  with assms show ?thesis
    by (auto simp: closeStep_def Let_def split: if_splits)
next
  case (Some s1)
  from chromeTabsRemove_Some [OF Some] obtain ns where
    "removalIds tabId = Some ns" "s1 = logCall (TabsRemove ns) st" by blast
  with assms Some show ?thesis
    by (auto simp: closeStep_def Let_def)
qed

lemma closeStep_Inl:
  "closeStep e w tabs tot tabId (meta, k, st) = Inl (m, s) \<Longrightarrow> s = st \<and> w"
  by (auto simp: closeStep_def Let_def split: option.splits if_splits)

lemma closingEvents_Suc:
  "Suc k \<le> k' \<Longrightarrow>
     closingEvents tot k (k' - k) =
       ClosingProgress (Suc k) tot # closingEvents tot (Suc k) (k' - Suc k)"
proof -
  assume "Suc k \<le> k'"
  then have "k' - k = Suc (k' - Suc k)" by simp
  then show ?thesis by simp
qed

lemma closeLoop_Inr:
  "closeLoop e w tabs tot cands (meta, k, st) = Inr (meta', k', st') \<Longrightarrow>
     isProcessing st' = isProcessing st \<and> lastAction st' = lastAction st \<and>
     recentTouch st' = recentTouch st \<and> k \<le> k' \<and>
     progress st' = progress st @ closingEvents tot k (k' - k) \<and>
     (\<exists>nss. chrome st' = chrome st @ map TabsRemove nss \<and>
            (\<forall>ns \<in> set nss. \<exists>tabId \<in> set cands. removalIds tabId = Some ns))"
proof (induction cands arbitrary: meta k st)
  case Nil
  then have "chrome st' = chrome st @ map TabsRemove []" by simp
  with Nil show ?case by fastforce
next
  case (Cons tabId rest)
  from Cons.prems obtain meta1 k1 st1 where
    step: "closeStep e w tabs tot tabId (meta, k, st) = Inr (meta1, k1, st1)" and
    run: "closeLoop e w tabs tot rest (meta1, k1, st1) = Inr (meta', k', st')"
    by (auto split: sum.splits)
  from Cons.IH [OF run] obtain nss where
    ih: "isProcessing st' = isProcessing st1" "lastAction st' = lastAction st1"
        "recentTouch st' = recentTouch st1" "k1 \<le> k'"
        "progress st' = progress st1 @ closingEvents tot k1 (k' - k1)"
        "chrome st' = chrome st1 @ map TabsRemove nss"
        "\<forall>ns \<in> set nss. \<exists>tabId \<in> set rest. removalIds tabId = Some ns"
    by blast
  from closeStep_Inr [OF step] show ?case
  proof
    assume "k1 = k \<and> st1 = st"
    with ih have "chrome st' = chrome st @ map TabsRemove nss \<and>
        (\<forall>ns \<in> set nss. \<exists>t \<in> set (tabId # rest). removalIds t = Some ns)"
      by auto
    with ih \<open>k1 = k \<and> st1 = st\<close> show ?thesis by blast
  next
    assume "k1 = Suc k \<and>
      (\<exists>ns. removalIds tabId = Some ns \<and>
            st1 = sendProgress (ClosingProgress (Suc k) tot) (logCall (TabsRemove ns) st))"
    then obtain ns where k1: "k1 = Suc k" and ns: "removalIds tabId = Some ns" and
      st1: "st1 = sendProgress (ClosingProgress (Suc k) tot) (logCall (TabsRemove ns) st)"
      by blast
    from ih(4) k1 have le: "Suc k \<le> k'" by simp
    from ih(6,7) ns st1 have "chrome st' = chrome st @ map TabsRemove (ns # nss) \<and>
        (\<forall>ns \<in> set (ns # nss). \<exists>t \<in> set (tabId # rest). removalIds t = Some ns)"
      by auto
    moreover from ih(5) k1 st1 have
      "progress st' = progress st @ closingEvents tot k (k' - k)"
      by (simp add: closingEvents_Suc [OF le])
    moreover from ih(1-3) st1 le have "isProcessing st' = isProcessing st"
      "lastAction st' = lastAction st" "recentTouch st' = recentTouch st" "k \<le> k'"
      by simp_all
    ultimately show ?thesis by blast
  qed
qed

lemma closeLoop_Inl:
  "closeLoop e w tabs tot cands (meta, k, st) = Inl (msg, s) \<Longrightarrow>
     w \<and> (\<exists>m. progress s = progress st @ closingEvents tot k m)"
proof (induction cands arbitrary: meta k st)
  case Nil
  then show ?case by simp
next
  case (Cons tabId rest)
  show ?case
  proof (cases "closeStep e w tabs tot tabId (meta, k, st)")
    case (Inl thrown)
    with Cons.prems have "closeStep e w tabs tot tabId (meta, k, st) = Inl (msg, s)" by simp
    from closeStep_Inl [OF this] have "w \<and> progress s = progress st @ closingEvents tot k 0"
      by simp
    then show ?thesis by blast
  next
    case (Inr acc1)
    obtain meta1 k1 st1 where a: "acc1 = (meta1, k1, st1)" by (cases acc1) auto
    with Inr Cons.prems have
      run: "closeLoop e w tabs tot rest (meta1, k1, st1) = Inl (msg, s)" by simp
    from Cons.IH [OF run] obtain m where
      ih: "w" "progress s = progress st1 @ closingEvents tot k1 m" by blast
    from closeStep_Inr [OF Inr [unfolded a]] show ?thesis
    proof
      assume "k1 = k \<and> st1 = st"
      with ih show ?thesis by blast
    next
      assume "k1 = Suc k \<and>
        (\<exists>ns. removalIds tabId = Some ns \<and>
              st1 = sendProgress (ClosingProgress (Suc k) tot) (logCall (TabsRemove ns) st))"
      with ih have "progress s = progress st @ closingEvents tot k (Suc m)"
        by auto
      with ih(1) show ?thesis by blast
    qed
  qed
qed

lemma chromeGroupAndLabel_cases:
  assumes "chromeGroupAndLabel e tabIds st = (st', r)"
  shows "(r = None \<and> (st' = st \<or> (\<exists>ids. st' = logCall (TabsGroup ids) st))) \<or>
         (\<exists>ids gid. r = Some ids \<and>
            st' = logCall (TabGroupsUpdate gid) (logCall (TabsGroup ids) st))"
proof (cases "idsOf tabIds")
  case None
  with assms show ?thesis by (simp add: chromeGroupAndLabel_def)
next
  case (Some ids)
  show ?thesis
  proof (cases "e_group e ids")
    case None
    with Some assms show ?thesis by (simp add: chromeGroupAndLabel_def)
  next
    case g: (Some gid)
    show ?thesis
    proof (cases "e_groupUpdateFails e gid")
      case True
      with Some g assms have "r = None \<and> st' = logCall (TabsGroup ids) st"
        by (auto simp: chromeGroupAndLabel_def Let_def)
      then show ?thesis by blast
    next
      case False
      with Some g assms have "r = Some ids \<and>
          st' = logCall (TabGroupsUpdate gid) (logCall (TabsGroup ids) st)"
        by (auto simp: chromeGroupAndLabel_def Let_def)
      then show ?thesis by blast
    qed
  qed
qed

lemma groupStep_Inr:
  assumes "groupStep e w tot grp (acc, k, st) = Inr (acc', k', st')"
  shows "(acc' = acc \<and> k' = k \<and> (st' = st \<or> (\<exists>ids. st' = logCall (TabsGroup ids) st))) \<or>
         (\<exists>ids gid. acc' = acc @ [ids] \<and> k' = Suc k \<and>
            st' = sendProgress (GroupProgress (Suc k) tot)
                    (logCall (TabGroupsUpdate gid) (logCall (TabsGroup ids) st)))"
proof (cases "grp \<noteq> JNull \<and> (\<exists>tabIds. getProp grp ''tabIds'' = Some (JArr tabIds) \<and> tabIds \<noteq> [])")
  case False
  with assms have "acc' = acc \<and> k' = k \<and> st' = st"
    by (auto simp: groupStep_def split: if_splits option.splits json.splits)
  then show ?thesis by simp
next
  case True
  then obtain tabIds where t: "grp \<noteq> JNull" "getProp grp ''tabIds'' = Some (JArr tabIds)"
    "tabIds \<noteq> []" by blast
  obtain s1 r where g: "chromeGroupAndLabel e tabIds st = (s1, r)"
    by (cases "chromeGroupAndLabel e tabIds st") auto
  from chromeGroupAndLabel_cases [OF g] show ?thesis
  proof
    assume n: "r = None \<and> (s1 = st \<or> (\<exists>ids. s1 = logCall (TabsGroup ids) st))"
    with assms t g have "acc' = acc \<and> k' = k \<and> st' = s1"
      by (auto simp: groupStep_def split: if_splits)
    with n show ?thesis by blast
  next
    assume "\<exists>ids gid. r = Some ids \<and>
              s1 = logCall (TabGroupsUpdate gid) (logCall (TabsGroup ids) st)"
    then obtain ids gid where r: "r = Some ids"
      "s1 = logCall (TabGroupsUpdate gid) (logCall (TabsGroup ids) st)" by blast
    with assms t g have "acc' = acc @ [ids] \<and> k' = Suc k \<and>
        st' = sendProgress (GroupProgress (Suc k) tot) s1"
      by (auto simp: groupStep_def)
    with r show ?thesis by blast
  qed
qed

lemma groupStep_Inl:
  "groupStep e w tot grp (acc, k, st) = Inl (m, s) \<Longrightarrow>
     w \<and> progress s = progress st"
  by (auto simp: groupStep_def chromeGroupAndLabel_def Let_def
      split: if_splits option.splits json.splits prod.splits)


subsection \<open>The loops and the two steps of a run\<close>

lemma calls_simps [simp]:
  "onlyGroups []" "onlyGroups (c # cs) = (isGrouping c \<and> onlyGroups cs)"
  "onlyGroups (cs @ ds) = (onlyGroups cs \<and> onlyGroups ds)"
  "onlyRemovals []" "onlyRemovals (c # cs) = (isRemoval c \<and> onlyRemovals cs)"
  "onlyRemovals (cs @ ds) = (onlyRemovals cs \<and> onlyRemovals ds)"
  "\<not> groupLabelled []" "groupLabelled (c # cs) = (isLabel c \<or> groupLabelled cs)"
  "groupLabelled (cs @ ds) = (groupLabelled cs \<or> groupLabelled ds)"
  by (simp_all add: onlyGroups_def onlyRemovals_def groupLabelled_def)

lemma removals_simps [simp]:
  "onlyRemovals (map TabsRemove nss)" "\<not> groupLabelled (map TabsRemove nss)"
  by (induction nss) simp_all

lemma groupEvents_Suc:
  "Suc k \<le> k' \<Longrightarrow>
     groupEvents tot k (k' - k) = GroupProgress (Suc k) tot # groupEvents tot (Suc k) (k' - Suc k)"
proof -
  assume "Suc k \<le> k'"
  then have "k' - k = Suc (k' - Suc k)" by simp
  then show ?thesis by simp
qed

lemma groupLoop_Inr:
  "groupLoop e w tot gs (acc, k, st) = Inr (acc', k', st') \<Longrightarrow>
     isProcessing st' = isProcessing st \<and> lastAction st' = lastAction st \<and>
     recentTouch st' = recentTouch st \<and> k \<le> k' \<and>
     length acc' = length acc + (k' - k) \<and>
     progress st' = progress st @ groupEvents tot k (k' - k) \<and>
     (\<exists>cs. chrome st' = chrome st @ cs \<and> onlyGroups cs \<and> (groupLabelled cs \<longleftrightarrow> k < k'))"
proof (induction gs arbitrary: acc k st)
  case Nil
  then have "chrome st' = chrome st @ [] \<and> onlyGroups [] \<and> (groupLabelled [] \<longleftrightarrow> k < k')"
    by simp
  with Nil show ?case by fastforce
next
  case (Cons grp rest)
  from Cons.prems obtain acc1 k1 st1 where
    step: "groupStep e w tot grp (acc, k, st) = Inr (acc1, k1, st1)" and
    run: "groupLoop e w tot rest (acc1, k1, st1) = Inr (acc', k', st')"
    by (auto split: sum.splits)
  from Cons.IH [OF run] obtain cs where
    ih: "isProcessing st' = isProcessing st1" "lastAction st' = lastAction st1"
        "recentTouch st' = recentTouch st1" "k1 \<le> k'"
        "length acc' = length acc1 + (k' - k1)"
        "progress st' = progress st1 @ groupEvents tot k1 (k' - k1)"
        "chrome st' = chrome st1 @ cs" "onlyGroups cs" "groupLabelled cs \<longleftrightarrow> k1 < k'"
    by blast
  from groupStep_Inr [OF step] show ?case
  proof
    assume a: "acc1 = acc \<and> k1 = k \<and> (st1 = st \<or> (\<exists>ids. st1 = logCall (TabsGroup ids) st))"
    then have "\<exists>ds. chrome st1 = chrome st @ ds \<and> onlyGroups ds \<and> \<not> groupLabelled ds \<and>
        isProcessing st1 = isProcessing st \<and> lastAction st1 = lastAction st \<and>
        recentTouch st1 = recentTouch st \<and> progress st1 = progress st"
    proof (elim conjE disjE exE)
      assume "st1 = st"
      then have "chrome st1 = chrome st @ [] \<and> onlyGroups [] \<and> \<not> groupLabelled [] \<and>
        isProcessing st1 = isProcessing st \<and> lastAction st1 = lastAction st \<and>
        recentTouch st1 = recentTouch st \<and> progress st1 = progress st" by simp
      then show ?thesis by blast
    next
      fix ids
      assume "st1 = logCall (TabsGroup ids) st"
      then have "chrome st1 = chrome st @ [TabsGroup ids] \<and> onlyGroups [TabsGroup ids] \<and>
        \<not> groupLabelled [TabsGroup ids] \<and>
        isProcessing st1 = isProcessing st \<and> lastAction st1 = lastAction st \<and>
        recentTouch st1 = recentTouch st \<and> progress st1 = progress st" by simp
      then show ?thesis by blast
    qed
    then obtain ds where ds: "chrome st1 = chrome st @ ds" "onlyGroups ds" "\<not> groupLabelled ds"
        "isProcessing st1 = isProcessing st" "lastAction st1 = lastAction st"
        "recentTouch st1 = recentTouch st" "progress st1 = progress st" by blast
    from ih ds a have "chrome st' = chrome st @ (ds @ cs) \<and> onlyGroups (ds @ cs) \<and>
        (groupLabelled (ds @ cs) \<longleftrightarrow> k < k')" by simp
    with ih ds a show ?thesis by (metis (no_types, lifting))
  next
    assume "\<exists>ids gid. acc1 = acc @ [ids] \<and> k1 = Suc k \<and>
            st1 = sendProgress (GroupProgress (Suc k) tot)
                    (logCall (TabGroupsUpdate gid) (logCall (TabsGroup ids) st))"
    then obtain ids gid where a: "acc1 = acc @ [ids]" "k1 = Suc k"
      "st1 = sendProgress (GroupProgress (Suc k) tot)
               (logCall (TabGroupsUpdate gid) (logCall (TabsGroup ids) st))" by blast
    from ih(4) a(2) have le: "Suc k \<le> k'" by simp
    from ih(7-9) a have "chrome st' = chrome st @ ([TabsGroup ids, TabGroupsUpdate gid] @ cs) \<and>
        onlyGroups ([TabsGroup ids, TabGroupsUpdate gid] @ cs) \<and>
        (groupLabelled ([TabsGroup ids, TabGroupsUpdate gid] @ cs) \<longleftrightarrow> k < k')"
      using le by simp
    then have c: "\<exists>cs. chrome st' = chrome st @ cs \<and> onlyGroups cs \<and> (groupLabelled cs \<longleftrightarrow> k < k')"
      by blast
    from ih(6) a have p: "progress st' = progress st @ groupEvents tot k (k' - k)"
      by (simp add: groupEvents_Suc [OF le])
    from ih(1-3,5) a le have "isProcessing st' = isProcessing st"
      "lastAction st' = lastAction st" "recentTouch st' = recentTouch st" "k \<le> k'"
      "length acc' = length acc + (k' - k)"
      by simp_all
    with c p show ?thesis by blast
  qed
qed

lemma groupLoop_Inl:
  "groupLoop e w tot gs (acc, k, st) = Inl (msg, s) \<Longrightarrow>
     w \<and> (\<exists>m. progress s = progress st @ groupEvents tot k m)"
proof (induction gs arbitrary: acc k st)
  case Nil
  then show ?case by simp
next
  case (Cons grp rest)
  show ?case
  proof (cases "groupStep e w tot grp (acc, k, st)")
    case (Inl thrown)
    with Cons.prems have "groupStep e w tot grp (acc, k, st) = Inl (msg, s)" by simp
    from groupStep_Inl [OF this] have "w \<and> progress s = progress st @ groupEvents tot k 0"
      by simp
    then show ?thesis by blast
  next
    case (Inr acc1)
    obtain g1 k1 st1 where a: "acc1 = (g1, k1, st1)" by (cases acc1) auto
    with Inr Cons.prems have
      run: "groupLoop e w tot rest (g1, k1, st1) = Inl (msg, s)" by simp
    from Cons.IH [OF run] obtain m where
      ih: "w" "progress s = progress st1 @ groupEvents tot k1 m" by blast
    from groupStep_Inr [OF Inr [unfolded a]] show ?thesis
    proof
      assume "g1 = acc \<and> k1 = k \<and> (st1 = st \<or> (\<exists>ids. st1 = logCall (TabsGroup ids) st))"
      then have "k1 = k" "progress st1 = progress st" by auto
      with ih show ?thesis by auto
    next
      assume "\<exists>ids gid. g1 = acc @ [ids] \<and> k1 = Suc k \<and>
            st1 = sendProgress (GroupProgress (Suc k) tot)
                    (logCall (TabGroupsUpdate gid) (logCall (TabsGroup ids) st))"
      with ih have "progress s = progress st @ groupEvents tot k (Suc m)"
        by auto
      with ih(1) show ?thesis by blast
    qed
  qed
qed

lemma closeIfAsked_Inr:
  assumes "closeIfAsked e w tabs a cands st = Inr (meta, s)"
  shows "isProcessing s = isProcessing st \<and> lastAction s = lastAction st \<and>
         recentTouch s = recentTouch st \<and>
         (\<exists>nss. chrome s = chrome st @ map TabsRemove nss \<and>
                (\<forall>ns \<in> set nss. \<exists>ids. cands = Some ids \<and>
                    (\<exists>tabId \<in> set ids. removalIds tabId = Some ns))) \<and>
         (\<exists>m dn. progress s =
                    progress st @
                    closingEvents (case cands of Some ids \<Rightarrow> length ids | None \<Rightarrow> 0) 0 m @ dn \<and>
                  (dn = [] \<or> dn = [ClosingDone m]))"
proof (cases "\<exists>ids. cands = Some ids \<and> a")
  case False
  with assms have "s = st" by (auto simp: closeIfAsked_def split: option.splits if_splits)
  then have "chrome s = chrome st @ map TabsRemove []"
    "progress s = progress st @
       closingEvents (case cands of Some ids \<Rightarrow> length ids | None \<Rightarrow> 0) 0 0 @ []"
    by simp_all
  with \<open>s = st\<close> show ?thesis by (metis empty_iff list.set(1))
next
  case True
  then obtain ids where ids: "cands = Some ids" "a" by blast
  with assms obtain k' st' where
    run: "closeLoop e w tabs (length ids) ids ([], 0, st) = Inr (meta, k', st')" and
    s: "s = sendProgress (ClosingDone k') st'"
    by (auto simp: closeIfAsked_def closeAll_def split: sum.splits)
  from closeLoop_Inr [OF run] obtain nss where
    r: "isProcessing st' = isProcessing st" "lastAction st' = lastAction st"
       "recentTouch st' = recentTouch st"
       "progress st' = progress st @ closingEvents (length ids) 0 k'"
       "chrome st' = chrome st @ map TabsRemove nss"
       "\<forall>ns \<in> set nss. \<exists>tabId \<in> set ids. removalIds tabId = Some ns"
    by auto
  from r(4) s ids have "progress s =
      progress st @ closingEvents (case cands of Some ids \<Rightarrow> length ids | None \<Rightarrow> 0) 0 k' @
      [ClosingDone k']" by simp
  moreover from r(5,6) s ids have "chrome s = chrome st @ map TabsRemove nss \<and>
     (\<forall>ns \<in> set nss. \<exists>ids. cands = Some ids \<and> (\<exists>tabId \<in> set ids. removalIds tabId = Some ns))"
    by simp
  moreover from r(1-3) s have "isProcessing s = isProcessing st" "lastAction s = lastAction st"
    "recentTouch s = recentTouch st" by simp_all
  ultimately show ?thesis by blast
qed

lemma closeIfAsked_Inl:
  assumes "closeIfAsked e w tabs a cands st = Inl (msg, s)"
  shows "w \<and> (\<exists>m. progress s =
                 progress st @
                 closingEvents (case cands of Some ids \<Rightarrow> length ids | None \<Rightarrow> 0) 0 m)"
proof -
  from assms obtain ids where ids: "cands = Some ids" and
    run: "closeLoop e w tabs (length ids) ids ([], 0, st) = Inl (msg, s)"
    by (auto simp: closeIfAsked_def closeAll_def split: option.splits if_splits sum.splits)
  from closeLoop_Inl [OF run] ids show ?thesis by simp
qed

lemma groupAll_Inr:
  assumes "groupAll e w v st = Inr (g, s)"
  shows "isProcessing s = isProcessing st \<and> lastAction s = lastAction st \<and>
         recentTouch s = recentTouch st \<and>
         (\<exists>cs. chrome s = chrome st @ cs \<and> onlyGroups cs \<and> (groupLabelled cs \<longleftrightarrow> g \<noteq> [])) \<and>
         (\<exists>m dn. progress s = progress st @ groupEvents (arrayLength v) 0 m @ dn \<and>
                  (dn = [] \<or> dn = [GroupingDone m]))"
proof (cases "\<exists>groups. v = Some (JArr groups) \<and> groups \<noteq> []")
  case False
  with assms have "s = st \<and> g = []"
    by (auto simp: groupAll_def split: option.splits json.splits if_splits)
  then have "s = st" "chrome s = chrome st @ [] \<and> onlyGroups [] \<and> (groupLabelled [] \<longleftrightarrow> g \<noteq> [])"
    "progress s = progress st @ groupEvents (arrayLength v) 0 0 @ []"
    by simp_all
  then show ?thesis by blast
next
  case True
  then obtain groups where v: "v = Some (JArr groups)" "groups \<noteq> []" by blast
  with assms obtain k' st' where
    run: "groupLoop e w (length groups) groups ([], 0, st) = Inr (g, k', st')" and
    s: "s = sendProgress (GroupingDone k') st'"
    by (auto simp: groupAll_def split: sum.splits)
  from groupLoop_Inr [OF run] obtain cs where
    r: "isProcessing st' = isProcessing st" "lastAction st' = lastAction st"
       "recentTouch st' = recentTouch st" "length g = k'"
       "progress st' = progress st @ groupEvents (length groups) 0 k'"
       "chrome st' = chrome st @ cs" "onlyGroups cs" "groupLabelled cs \<longleftrightarrow> 0 < k'"
    by auto
  from r(5) s v have "progress s = progress st @ groupEvents (arrayLength v) 0 k' @ [GroupingDone k']"
    by (simp add: arrayLength_def)
  moreover from r(4,6-8) s have "chrome s = chrome st @ cs \<and> onlyGroups cs \<and>
      (groupLabelled cs \<longleftrightarrow> g \<noteq> [])" by auto
  moreover from r(1-3) s have "isProcessing s = isProcessing st" "lastAction s = lastAction st"
    "recentTouch s = recentTouch st" by simp_all
  ultimately show ?thesis by blast
qed

lemma groupAll_Inl:
  assumes "groupAll e w v st = Inl (msg, s)"
  shows "w \<and> (\<exists>m. progress s = progress st @ groupEvents (arrayLength v) 0 m)"
proof -
  from assms obtain groups where v: "v = Some (JArr groups)" and
    run: "groupLoop e w (length groups) groups ([], 0, st) = Inl (msg, s)"
    by (auto simp: groupAll_def split: option.splits json.splits if_splits sum.splits)
  from groupLoop_Inl [OF run] v show ?thesis by (simp add: arrayLength_def)
qed


subsection \<open>The three pipelines, step by step\<close>

lemma extractLoop_keeps:
  "chrome (snd (extractLoop tot i ts st)) = chrome st \<and>
   recentTouch (snd (extractLoop tot i ts st)) = recentTouch st \<and>
   isProcessing (snd (extractLoop tot i ts st)) = isProcessing st \<and>
   lastAction (snd (extractLoop tot i ts st)) = lastAction st"
  by (induction ts arbitrary: i st) (simp_all add: Let_def case_prod_beta)

lemma extractLoop_progress:
  "progress (snd (extractLoop tot i ts st)) =
     progress st @ map (\<lambda>k. ExtractProgress (Suc k) tot) [i..<i + length ts] \<and>
   length (fst (extractLoop tot i ts st)) = length ts"
proof (induction ts arbitrary: i st)
  case Nil
  then show ?case by simp
next
  case (Cons t ts)
  have u: "[i..<Suc (i + length ts)] = i # [Suc i..<Suc (i + length ts)]"
    using upt_conv_Cons [of i "Suc (i + length ts)"] by simp
  from Cons [of "Suc i" "sendProgress (ExtractProgress (Suc i) tot) st"] show ?case
    by (simp add: u Let_def case_prod_beta del: upt_Suc)
qed

text \<open>The state in which a pipeline has sent \<open>ai_response\<close> for the analysis it got.\<close>

lemma answered_state:
  assumes "ex = extractLoop (length tabs) 0 tabs (sendProgress (TabsCollected (length tabs)) st)"
    and "st4 = sendProgress answer (sendProgress (AiRequest (length (fst ex))) (snd ex))"
  shows "progress st4 = progress st @ tl (jobPrefix (length tabs) answer) \<and>
         chrome st4 = chrome st \<and> recentTouch st4 = recentTouch st \<and>
         isProcessing st4 = isProcessing st \<and> lastAction st4 = lastAction st"
  using extractLoop_progress [of "length tabs" 0 tabs "sendProgress (TabsCollected (length tabs)) st"]
    extractLoop_keeps [of "length tabs" 0 tabs "sendProgress (TabsCollected (length tabs)) st"]
  by (simp add: assms jobPrefix_def)


lemma organizeTry_Inl_inv:
  assumes "organizeTry e settings st = Inl (m, s)"
  shows "s = st \<or>
         (\<exists>analysis st4.
           progress st4 = progress st @ tl (jobPrefix (length (e_tabs e)) (aiResponse analysis)) \<and>
           (closeIfAsked e True (e_tabs e) (autoCloseOf e settings)
              (arrayOf (getProp analysis ''tabsToClose'')) st4 = Inl (m, s) \<or>
            (\<exists>meta st5.
               closeIfAsked e True (e_tabs e) (autoCloseOf e settings)
                 (arrayOf (getProp analysis ''tabsToClose'')) st4 = Inr (meta, st5) \<and>
               groupAll e True (getProp analysis ''tabGroups'') st5 = Inl (m, s))))"
proof -
  define ex where
    "ex = extractLoop (length (e_tabs e)) 0 (e_tabs e)
            (sendProgress (TabsCollected (length (e_tabs e))) st)"
  define analysis where
    "analysis = analyzeTabs (e_parse e) (e_strict e) (e_http e)
                  (Some (toLowerCase (orElse (e_providerAnalyze e) ''openai''))) (fst ex)"
  define st4 where
    "st4 = sendProgress (aiResponse analysis) (sendProgress (AiRequest (length (fst ex))) (snd ex))"
  note a = answered_state [OF ex_def st4_def]
  from assms have "s = st \<or>
           closeIfAsked e True (e_tabs e) (autoCloseOf e settings)
              (arrayOf (getProp analysis ''tabsToClose'')) st4 = Inl (m, s) \<or>
            (\<exists>meta st5.
               closeIfAsked e True (e_tabs e) (autoCloseOf e settings)
                 (arrayOf (getProp analysis ''tabsToClose'')) st4 = Inr (meta, st5) \<and>
               groupAll e True (getProp analysis ''tabGroups'') st5 = Inl (m, s))"
    by (auto simp: organizeTry_def Let_def case_prod_beta st4_def analysis_def ex_def
        split: option.splits sum.splits)
  with a show ?thesis by blast
qed



lemma closeLowTry_Inl_inv:
  assumes "closeLowTry e settings st = Inl (m, s)"
  shows "s = st \<or>
         (\<exists>analysis st4.
           progress st4 =
             progress st @
             tl (jobPrefix (length (e_tabs e))
                   (AiResponse (arrayLength (getProp analysis ''tabsToClose'')) 0
                      (reasoningOf analysis))) \<and>
           closeIfAsked e True (e_tabs e) True
              (arrayOf (getProp analysis ''tabsToClose'')) st4 = Inl (m, s))"
proof -
  define ex where
    "ex = extractLoop (length (e_tabs e)) 0 (e_tabs e)
            (sendProgress (TabsCollected (length (e_tabs e))) st)"
  define analysis where
    "analysis = analyzeTabs (e_parse e) (e_strict e) (e_http e)
                  (Some (toLowerCase (orElse (e_providerClose e) ''openai''))) (fst ex)"
  define st4 where
    "st4 = sendProgress (AiResponse (arrayLength (getProp analysis ''tabsToClose'')) 0
                           (reasoningOf analysis))
             (sendProgress (AiRequest (length (fst ex))) (snd ex))"
  note a = answered_state [OF ex_def st4_def]
  from assms have "s = st \<or>
           closeIfAsked e True (e_tabs e) True
              (arrayOf (getProp analysis ''tabsToClose'')) st4 = Inl (m, s)"
    by (auto simp: closeLowTry_def Let_def case_prod_beta st4_def analysis_def ex_def
        split: option.splits sum.splits)
  with a show ?thesis by blast
qed

text \<open>The handlers of \<open>organizeTabsGeneric\<close> are empty: nothing leaves its loops.\<close>

lemma genericTry_Inl_inv:
  assumes "genericTry e provider autoClose st = Inl (m, s)"
  shows "s = st"
proof -
  define ex where
    "ex = extractLoop (length (e_tabs e)) 0 (e_tabs e)
            (sendProgress (TabsCollected (length (e_tabs e))) st)"
  define analysis where
    "analysis = analyzeTabs (e_parse e) (e_strict e) (e_http e) provider (fst ex)"
  define st4 where
    "st4 = sendProgress (aiResponse analysis) (sendProgress (AiRequest (length (fst ex))) (snd ex))"
  define filtered where
    "filtered = filterTabsToClose (e_tabs e) (recentTouch st4) (e_now e)
                  (arrayOf (getProp analysis ''tabsToClose''))"
  from assms have "s = st \<or>
           closeIfAsked e False (e_tabs e) autoClose filtered st4 = Inl (m, s) \<or>
            (\<exists>st5. groupAll e False (getProp analysis ''tabGroups'') st5 = Inl (m, s))"
    by (auto simp: genericTry_def Let_def case_prod_beta st4_def analysis_def ex_def filtered_def
        split: option.splits sum.splits)
  moreover have "closeIfAsked e False (e_tabs e) autoClose filtered st4 \<noteq> Inl (m, s)"
    using closeIfAsked_Inl [of e False "e_tabs e" autoClose filtered st4 m s] by auto
  moreover have "groupAll e False (getProp analysis ''tabGroups'') st5 \<noteq> Inl (m, s)" for st5
    using groupAll_Inl [of e False "getProp analysis ''tabGroups''" st5 m s] by auto
  ultimately show ?thesis by blast
qed

lemma genericTry_Inr_inv:
  assumes "genericTry e provider autoClose st = Inr s"
  shows "\<exists>analysis st4 meta st5 g st6.
           progress st4 = progress st @ tl (jobPrefix (length (e_tabs e)) (aiResponse analysis)) \<and>
           chrome st4 = chrome st \<and> recentTouch st4 = recentTouch st \<and>
           closeIfAsked e False (e_tabs e) autoClose
             (filterTabsToClose (e_tabs e) (recentTouch st) (e_now e)
                (arrayOf (getProp analysis ''tabsToClose''))) st4 = Inr (meta, st5) \<and>
           groupAll e False (getProp analysis ''tabGroups'') st5 = Inr (g, st6) \<and>
           s = sendProgress Complete (setLastAction e (actionType autoClose g) meta g st6)"
proof -
  define ex where
    "ex = extractLoop (length (e_tabs e)) 0 (e_tabs e)
            (sendProgress (TabsCollected (length (e_tabs e))) st)"
  define analysis where
    "analysis = analyzeTabs (e_parse e) (e_strict e) (e_http e) provider (fst ex)"
  define st4 where
    "st4 = sendProgress (aiResponse analysis) (sendProgress (AiRequest (length (fst ex))) (snd ex))"
  note a = answered_state [OF ex_def st4_def]
  from assms have "\<exists>meta st5 g st6.
           closeIfAsked e False (e_tabs e) autoClose
             (filterTabsToClose (e_tabs e) (recentTouch st4) (e_now e)
                (arrayOf (getProp analysis ''tabsToClose''))) st4 = Inr (meta, st5) \<and>
           groupAll e False (getProp analysis ''tabGroups'') st5 = Inr (g, st6) \<and>
           s = sendProgress Complete (setLastAction e (actionType autoClose g) meta g st6)"
    by (auto simp: genericTry_def Let_def case_prod_beta st4_def analysis_def ex_def
        split: option.splits sum.splits)
  with a show ?thesis by (metis (no_types, lifting))
qed

subsection \<open>The type recorded\<close>

lemma setLastAction_fields [simp]:
  "chrome (setLastAction e ty cl gr st) = chrome st"
  "isProcessing (setLastAction e ty cl gr st) = isProcessing st"
  "progress (setLastAction e ty cl gr st) = progress st"
  by (simp_all add: setLastAction_def)


lemma jobCalls_append [simp]: "chrome st' = chrome st @ cs \<Longrightarrow> jobCalls st st' = cs"
  by (simp add: jobCalls_def)











lemma sample_analysis:
  "analyzeTabs parseSample False (Envelope \<lparr>env_text = Some replyJson, env_rawText = None\<rparr>)
     p tabData = replyValue"
  by (simp add: analyzeTabs_def analyzeTabsWithOpenAI_def openAITry_def openAIContent_def
      analyzeTabsWithGemini_def geminiTry_def geminiText_def
      analyzeTabsWithClaude_def claudeTry_def claudeText_def
      parseWithRecovery_def parseSample_def replyJson_def replyValue_def setIfNotArray_def
      Let_def)


lemma sample_organize:
  "organizeTabsAndClose hostOk closeSettings idle =
     \<lparr>isProcessing = False,
      lastAction = Some \<lparr>la_type = ''organize'',
                          la_closedTabs = [metaOf tabB, metaOf tabC], la_groupedTabIds = [[1]],
                          la_timestamp = 1000000\<rparr>,
      recentTouch = Map.empty,
      progress = [Start, TabsCollected 3, ExtractProgress 1 3, ExtractProgress 2 3,
                  ExtractProgress 3 3, AiRequest 3, AiResponse 2 1 [], ClosingProgress 1 2,
                  ClosingProgress 2 2, ClosingDone 2, GroupProgress 1 1, GroupingDone 1,
                  Complete],
      chrome = [TabsRemove [2], TabsRemove [3], TabsGroup [1], TabGroupsUpdate 7]\<rparr>"
  by (simp add: organizeTabsAndClose_def organizeTry_def hostOk_def sample_analysis
      replyValue_def closeSettings_def idle_def autoCloseOf_def sendProgress_def logCall_def
      aiResponse_def arrayOf_def closeIfAsked_def closeStep_def groupStep_def removalIds_def
      idToTabGet_def arrayLength_def reasoningOf_def closeAll_def groupAll_def
      chromeTabsRemove_def chromeGroupAndLabel_def setLastAction_def actionType_def
      tabA_def tabB_def tabC_def Let_def)

lemma sample_close:
  "closeLowImportance hostOk noSettings idle =
     \<lparr>isProcessing = False,
      lastAction = Some \<lparr>la_type = ''close'',
                          la_closedTabs = [metaOf tabB, metaOf tabC], la_groupedTabIds = [],
                          la_timestamp = 1000000\<rparr>,
      recentTouch = Map.empty,
      progress = [Start, TabsCollected 3, ExtractProgress 1 3, ExtractProgress 2 3,
                  ExtractProgress 3 3, AiRequest 3, AiResponse 2 0 [], ClosingProgress 1 2,
                  ClosingProgress 2 2, ClosingDone 2, Complete],
      chrome = [TabsRemove [2], TabsRemove [3]]\<rparr>"
  by (simp add: closeLowImportance_def closeLowTry_def hostOk_def sample_analysis
      replyValue_def noSettings_def idle_def sendProgress_def logCall_def
      arrayOf_def closeIfAsked_def closeStep_def removalIds_def
      idToTabGet_def arrayLength_def reasoningOf_def closeAll_def
      chromeTabsRemove_def setLastAction_def
      tabA_def tabB_def tabC_def Let_def)

lemma sample_generic:
  "organizeTabsGeneric hostOk None True idle =
     \<lparr>isProcessing = False,
      lastAction = Some \<lparr>la_type = ''organize'',
                          la_closedTabs = [metaOf tabB], la_groupedTabIds = [[1]],
                          la_timestamp = 1000000\<rparr>,
      recentTouch = Map.empty,
      progress = [Start, TabsCollected 3, ExtractProgress 1 3, ExtractProgress 2 3,
                  ExtractProgress 3 3, AiRequest 3, AiResponse 2 1 [], ClosingProgress 1 1,
                  ClosingDone 1, GroupProgress 1 1, GroupingDone 1, Complete],
      chrome = [TabsRemove [2], TabsGroup [1], TabGroupsUpdate 7]\<rparr>"
  by (simp add: organizeTabsGeneric_def genericTry_def hostOk_def sample_analysis
      replyValue_def idle_def sendProgress_def logCall_def
      aiResponse_def arrayOf_def closeIfAsked_def closeStep_def groupStep_def removalIds_def
      filterTabsToClose_def keepCandidate_def protectActiveHas_def recentTouchGet_def
      protectedUrl_def startsWith_def
      idToTabGet_def arrayLength_def reasoningOf_def closeAll_def groupAll_def
      chromeTabsRemove_def chromeGroupAndLabel_def setLastAction_def actionType_def
      tabA_def tabB_def tabC_def Let_def)





subsection \<open>The filter of the automatic pipeline\<close>

lemma find_SomeD: "find P xs = Some x \<Longrightarrow> x \<in> set xs \<and> P x"
  by (induction xs) (auto split: if_splits)

lemma keepCandidate_number:
  "keepCandidate tabs touch nowTs tid \<Longrightarrow> \<exists>n. tid = JNum n"
  by (cases tid) (simp_all add: keepCandidate_def idToTabGet_def)

lemma keepCandidate_protects:
  assumes "keepCandidate tabs touch nowTs (JNum n)"
  shows "n \<notin> tab_id ` {t \<in> set tabs. tab_active t} \<and>
         (\<exists>t \<in> set tabs. tab_id t = n \<and> \<not> protectedUrl (tab_url t)) \<and>
         (\<forall>touched. touch n = Some touched \<longrightarrow> touched = 0 \<or> nowTs - touched \<ge> 30000)"
proof -
  from assms obtain original where
    o: "find (\<lambda>t. tab_id t = n) (rev tabs) = Some original"
    by (auto simp: keepCandidate_def idToTabGet_def split: option.splits)
  then have mem: "original \<in> set tabs \<and> tab_id original = n"
    using find_SomeD [of "\<lambda>t. tab_id t = n" "rev tabs" original] by simp
  from assms o have "\<not> protectActiveHas tabs (JNum n)" "\<not> protectedUrl (tab_url original)"
    "\<forall>touched. touch n = Some touched \<longrightarrow> touched = 0 \<or> nowTs - touched \<ge> 30000"
    by (auto simp: keepCandidate_def idToTabGet_def recentTouchGet_def Let_def
        split: if_splits option.splits)
  with mem show ?thesis
    by (auto simp: protectActiveHas_def)
qed

lemma filtered_removals:
  assumes "\<forall>ns \<in> set nss. \<exists>ids. filterTabsToClose tabs touch nowTs cands = Some ids \<and>
              (\<exists>tabId \<in> set ids. removalIds tabId = Some ns)"
  shows "\<exists>ms. map TabsRemove nss = map (\<lambda>n. TabsRemove [n]) ms \<and>
              (\<forall>n \<in> set ms. keepCandidate tabs touch nowTs (JNum n))"
  using assms
proof (induction nss)
  case Nil
  have "map TabsRemove [] = map (\<lambda>n. TabsRemove [n]) [] \<and>
        (\<forall>n \<in> set []. keepCandidate tabs touch nowTs (JNum n))" by simp
  then show ?case by blast
next
  case (Cons ns nss)
  then obtain ms where ms: "map TabsRemove nss = map (\<lambda>n. TabsRemove [n]) ms"
    "\<forall>n \<in> set ms. keepCandidate tabs touch nowTs (JNum n)" by auto
  from Cons.prems obtain ids tabId where
    t: "filterTabsToClose tabs touch nowTs cands = Some ids" "tabId \<in> set ids"
       "removalIds tabId = Some ns" by auto
  then have k: "keepCandidate tabs touch nowTs tabId"
    by (auto simp: filterTabsToClose_def split: option.splits)
  from keepCandidate_number [OF k] obtain n where n: "tabId = JNum n" by blast
  with t(3) have "ns = [n]" by (simp add: removalIds_def)
  with ms k n have "map TabsRemove (ns # nss) = map (\<lambda>n. TabsRemove [n]) (n # ms) \<and>
      (\<forall>n \<in> set (n # ms). keepCandidate tabs touch nowTs (JNum n))" by simp
  then show ?case by blast
qed

text \<open>The automatic pipeline does filter: whatever it removes passed \<open>keepCandidate\<close>, also
  when the analysis is the fallback.\<close>

lemma generic_removals_are_filtered:
  assumes "\<not> isProcessing st"
  shows "\<exists>ns cs. chrome (organizeTabsGeneric e provider autoClose st) =
                   chrome st @ map (\<lambda>n. TabsRemove [n]) ns @ cs \<and> onlyGroups cs \<and>
                 (\<forall>n \<in> set ns. keepCandidate (e_tabs e) (recentTouch st) (e_now e) (JNum n))"
proof (cases "genericTry e provider autoClose (sendProgress Start (st\<lparr>isProcessing := True\<rparr>))")
  case (Inl a)
  then obtain m s where a: "a = (m, s)" by (metis surj_pair)
  with Inl genericTry_Inl_inv have "s = sendProgress Start (st\<lparr>isProcessing := True\<rparr>)"
    by blast
  with Inl a assms have "chrome (organizeTabsGeneric e provider autoClose st) =
      chrome st @ map (\<lambda>n. TabsRemove [n]) [] @ []"
    by (simp add: organizeTabsGeneric_def Let_def)
  then show ?thesis
    by (metis calls_simps(1) empty_iff list.set(1))
next
  case (Inr s)
  define st0 where "st0 = sendProgress Start (st\<lparr>isProcessing := True\<rparr>)"
  from genericTry_Inr_inv [OF Inr] obtain analysis st4 meta st5 g st6 where
    i: "chrome st4 = chrome st0" "recentTouch st4 = recentTouch st0"
       "closeIfAsked e False (e_tabs e) autoClose
             (filterTabsToClose (e_tabs e) (recentTouch st0) (e_now e)
                (arrayOf (getProp analysis ''tabsToClose''))) st4 = Inr (meta, st5)"
       "groupAll e False (getProp analysis ''tabGroups'') st5 = Inr (g, st6)"
       "s = sendProgress Complete (setLastAction e (actionType autoClose g) meta g st6)"
    unfolding st0_def by blast
  from closeIfAsked_Inr [OF i(3)] obtain nss where
    c: "chrome st5 = chrome st4 @ map TabsRemove nss"
       "\<forall>ns \<in> set nss. \<exists>ids. filterTabsToClose (e_tabs e) (recentTouch st0) (e_now e)
                (arrayOf (getProp analysis ''tabsToClose'')) = Some ids \<and>
                    (\<exists>tabId \<in> set ids. removalIds tabId = Some ns)"
    by blast
  from filtered_removals [OF c(2)] obtain ms where
    ms: "map TabsRemove nss = map (\<lambda>n. TabsRemove [n]) ms"
        "\<forall>n \<in> set ms. keepCandidate (e_tabs e) (recentTouch st0) (e_now e) (JNum n)"
    by blast
  from groupAll_Inr [OF i(4)] obtain cs where
    g: "chrome st6 = chrome st5 @ cs" "onlyGroups cs" by blast
  from Inr assms have "chrome (organizeTabsGeneric e provider autoClose st) = chrome s"
    by (simp add: organizeTabsGeneric_def Let_def)
  with i(1,5) c(1) ms g have
    "chrome (organizeTabsGeneric e provider autoClose st) =
       chrome st @ map (\<lambda>n. TabsRemove [n]) ms @ cs \<and> onlyGroups cs \<and>
     (\<forall>n \<in> set ms. keepCandidate (e_tabs e) (recentTouch st) (e_now e) (JNum n))"
    by (simp add: st0_def)
  then show ?thesis by blast
qed

lemma automatic_pipeline_protects:
  assumes "\<not> isProcessing st"
    and "chrome (organizeTabsGeneric e provider autoClose st) = chrome st @ new"
    and "TabsRemove ids \<in> set new"
  shows "\<exists>n. ids = [n] \<and>
             n \<notin> tab_id ` {t \<in> set (e_tabs e). tab_active t} \<and>
             (\<exists>t \<in> set (e_tabs e). tab_id t = n \<and> \<not> protectedUrl (tab_url t)) \<and>
             (\<forall>touched. recentTouch st n = Some touched \<longrightarrow>
                touched = 0 \<or> e_now e - touched \<ge> 30000)"
proof -
  from generic_removals_are_filtered [OF assms(1), of e provider autoClose]
  obtain ns cs where r: "chrome (organizeTabsGeneric e provider autoClose st) =
                   chrome st @ map (\<lambda>n. TabsRemove [n]) ns @ cs" "onlyGroups cs"
      "\<forall>n \<in> set ns. keepCandidate (e_tabs e) (recentTouch st) (e_now e) (JNum n)"
    by blast
  from r(1) assms(2) have "new = map (\<lambda>n. TabsRemove [n]) ns @ cs" by simp
  moreover from r(2) have "TabsRemove ids \<notin> set cs"
    by (auto simp: onlyGroups_def list_all_iff)
  ultimately obtain n where n: "ids = [n]" "n \<in> set ns"
    using assms(3) by auto
  with r(3) have "keepCandidate (e_tabs e) (recentTouch st) (e_now e) (JNum n)" by blast
  from keepCandidate_protects [OF this] n(1) show ?thesis by blast
qed

text \<open>
  C1. The close-only and the organize pipeline apply no filter. On three tabs of which the
  third (id 3) is active, with a provider that names the tabs 2 and 3 for closing, both remove
  the active tab 3; the automatic pipeline, run with closing on the same input, keeps it.
\<close>

theorem unfiltered_pipelines_remove_active_tab:
  "e_tabs hostOk = [tabA, tabB, tabC] \<and> tab_id tabC = 3 \<and> tab_active tabC \<and>
   chrome (closeLowImportance hostOk noSettings idle) = [TabsRemove [2], TabsRemove [3]] \<and>
   chrome (organizeTabsAndClose hostOk closeSettings idle) =
     [TabsRemove [2], TabsRemove [3], TabsGroup [1], TabGroupsUpdate 7] \<and>
   chrome (organizeTabsGeneric hostOk None True idle) =
     [TabsRemove [2], TabsGroup [1], TabGroupsUpdate 7]"
  by (simp add: sample_close sample_organize sample_generic) (simp add: hostOk_def tabC_def)

section \<open>Debug helpers and the lock\<close>

lemma logCall_ignores_lock:
  "logCall c (st\<lparr>isProcessing := b\<rparr>) = (logCall c st)\<lparr>isProcessing := b\<rparr>"
  by (simp add: logCall_def)

lemma createLoop_ignores_lock:
  "createLoop e urls (st\<lparr>isProcessing := b\<rparr>) = (createLoop e urls st)\<lparr>isProcessing := b\<rparr>"
  by (induction urls arbitrary: st) (simp_all add: logCall_ignores_lock split: option.splits)

text \<open>Neither helper reads the flag: each does to a busy worker what it does to an idle one.\<close>

lemma debug_helpers_ignore_lock:
  "createDebugTabs e (st\<lparr>isProcessing := b\<rparr>) = (createDebugTabs e st)\<lparr>isProcessing := b\<rparr>"
  "debugCloseAllTabs e (st\<lparr>isProcessing := b\<rparr>) = (debugCloseAllTabs e st)\<lparr>isProcessing := b\<rparr>"
  by (simp_all add: createDebugTabs_def createLoop_ignores_lock debugCloseAllTabs_def
      setLastAction_def logCall_def Let_def split: option.splits)

text \<open>
  C6. The debug helpers do not take part in the lock. While a job is in progress (the flag is
  set), "close all but current" removes the tabs 1 and 2 and overwrites the journal, and
  "create test tabs" opens its ten pages; the listener runs both on request.
\<close>

theorem debug_helpers_run_while_busy:
  "isProcessing busy \<and> lastAction busy = None \<and>
   chrome (debugCloseAllTabs hostOk busy) = [TabsRemove [1, 2]] \<and>
   map_option la_type (lastAction (debugCloseAllTabs hostOk busy)) = Some ''close'' \<and>
   isProcessing (debugCloseAllTabs hostOk busy) \<and>
   chrome (createDebugTabs hostOk busy) = map (\<lambda>url. TabsCreate url None) debugUrls \<and>
   fst (onMessage hostOk ReqDebugCloseAllTabs busy) = debugCloseAllTabs hostOk busy \<and>
   fst (onMessage hostOk ReqDebugCreateTabs busy) = createDebugTabs hostOk busy"
  by (simp add: debugCloseAllTabs_def createDebugTabs_def onMessage_def hostOk_def busy_def
      setLastAction_def logCall_def debugUrls_def metaOf_def tabA_def tabB_def tabC_def Let_def)

end
